theory Spec2Isabelle
  imports Complex_Main "HOL-Library.Word"
begin

text \<open>
  A shallow embedding of \<^verbatim>\<open>src/util.c\<close> of APSW, the layer between the Python runtime and
  the SQLite engine: the macros that release the runtime lock around native calls and capture
  the engine's error text, the in-use guard, the call-context tracker, the conversion of
  native values to Python objects, and the dispatcher for exceptions that cannot be raised.

  The C code talks to two collaborators it does not define, the Python C API and the SQLite
  C API. Each API function the code calls is a definition of the same name here, stating the
  documented behaviour the code relies on; state that lives in those collaborators is a
  field of an explicit state record. A C \<^verbatim>\<open>NULL\<close> pointer is \<open>None\<close>.
\<close>

section \<open>Shared vocabulary: result codes, type tags, exception classes\<close>

text \<open>
  The numeric values come from the engine's public header: result codes
  \<open>SQLITE_OK\<close>, \<open>SQLITE_ERROR\<close>, \<open>SQLITE_ROW\<close>, \<open>SQLITE_DONE\<close> and the five
  fundamental type tags.
\<close>

abbreviation (input) SQLITE_OK :: int where "SQLITE_OK \<equiv> 0"
abbreviation (input) SQLITE_ERROR :: int where "SQLITE_ERROR \<equiv> 1"
abbreviation (input) SQLITE_ROW :: int where "SQLITE_ROW \<equiv> 100"
abbreviation (input) SQLITE_DONE :: int where "SQLITE_DONE \<equiv> 101"

abbreviation (input) SQLITE_INTEGER :: int where "SQLITE_INTEGER \<equiv> 1"
abbreviation (input) SQLITE_FLOAT :: int where "SQLITE_FLOAT \<equiv> 2"
abbreviation (input) SQLITE_TEXT :: int where "SQLITE_TEXT \<equiv> 3"
abbreviation (input) SQLITE_BLOB :: int where "SQLITE_BLOB \<equiv> 4"
abbreviation (input) SQLITE_NULL :: int where "SQLITE_NULL \<equiv> 5"

text \<open>Exception classes that util.c raises, plus any class raised by the host itself.\<close>

datatype exc_type =
    ExcThreadingViolation
  | ExcConnectionClosed
  | ExcCursorClosed
  | PyExc_ValueError
  | PyExc_RecursionError
  | PyExc_Other string

section \<open>Value marshaller: \<open>convert_value_to_pyobject\<close>\<close>

type_synonym byte = "8 word"

text \<open>
  A C double is carried as its 64 bits, in the IEEE 754 binary64 format: a sign bit, eleven
  bits of exponent and 52 bits of fraction. The conversion never inspects them; the host
  does when it compares numbers.
\<close>

type_synonym double = "64 word"

definition double_negative :: "double \<Rightarrow> bool" where
  "double_negative d = bit d 63"

definition double_exponent :: "double \<Rightarrow> nat" where
  "double_exponent d = unat (take_bit 11 (drop_bit 52 d))"

definition double_fraction :: "double \<Rightarrow> nat" where
  "double_fraction d = unat (take_bit 52 d)"

text \<open>An exponent of all ones is an infinity when the fraction is zero and otherwise not a number.\<close>

definition double_is_nan :: "double \<Rightarrow> bool" where
  "double_is_nan d = (double_exponent d = 2047 \<and> double_fraction d \<noteq> 0)"

definition double_is_infinite :: "double \<Rightarrow> bool" where
  "double_is_infinite d = (double_exponent d = 2047 \<and> double_fraction d = 0)"

text \<open>
  The number a finite double stands for: the fraction with the implicit leading bit, scaled
  by the exponent; without the leading bit when the exponent field is zero.
\<close>

definition double_value :: "double \<Rightarrow> rat" where
  "double_value d =
     (let e = max 1 (double_exponent d);
          m = (if double_exponent d = 0 then 0 else 2 ^ 52) + double_fraction d;
          magnitude = of_nat m * 2 ^ (e - 1075) / 2 ^ (1075 - e)
      in if double_negative d then - magnitude else magnitude)"

text \<open>
  A native \<open>sqlite3_value\<close> is opaque to util.c: the code only sees what the accessor
  functions return. The model is therefore the tuple of accessor results, one field per
  accessor the code calls. \<open>value_data\<close> holds the bytes behind the pointer returned
  by \<open>sqlite3_value_text\<close>/\<open>sqlite3_value_blob\<close>. \<open>vtab_in\<close> is the sequence of
  answers \<open>(rc, *ppOut)\<close> the engine gives to \<open>sqlite3_vtab_in_first\<close> and then to each
  \<open>sqlite3_vtab_in_next\<close> on this value.
\<close>

datatype sqlite3_value = Sqlite3_Value
  (sqlite3_value_type: int)
  (sqlite3_value_nochange: bool)
  (sqlite3_value_int64: "64 word")
  (sqlite3_value_double: double)
  (value_data: "byte list")
  (vtab_in: "(int \<times> sqlite3_value option) list")

definition sqlite3_value_text :: "sqlite3_value \<Rightarrow> byte list" where
  "sqlite3_value_text v = value_data v"

definition sqlite3_value_blob :: "sqlite3_value \<Rightarrow> byte list" where
  "sqlite3_value_blob v = value_data v"

definition sqlite3_value_bytes :: "sqlite3_value \<Rightarrow> nat" where
  "sqlite3_value_bytes v = length (value_data v)"

text \<open>
  The iteration cursor of an IN list lives inside the engine; here it is the list of
  answers not yet given. A value that is not the head of an IN list answers
  \<open>SQLITE_ERROR\<close> to \<open>sqlite3_vtab_in_first\<close>; past the last answer the engine
  reports \<open>SQLITE_DONE\<close> with a null element.
\<close>

type_synonym in_cursor = "(int \<times> sqlite3_value option) list"

definition sqlite3_vtab_in_first :: "sqlite3_value \<Rightarrow> int \<times> sqlite3_value option \<times> in_cursor" where
  "sqlite3_vtab_in_first v =
     (case vtab_in v of
        [] \<Rightarrow> (SQLITE_ERROR, None, [])
      | (rc, p) # rest \<Rightarrow> (rc, p, rest))"

definition sqlite3_vtab_in_next :: "in_cursor \<Rightarrow> int \<times> sqlite3_value option \<times> in_cursor" where
  "sqlite3_vtab_in_next cur =
     (case cur of
        [] \<Rightarrow> (SQLITE_DONE, None, [])
      | (rc, p) # rest \<Rightarrow> (rc, p, rest))"

text \<open>
  Host objects the marshaller can produce. A set is given by its elements, in the order in
  which they were added.
\<close>

datatype pyobject =
    PyLong int
  | PyFloat double
  | PyUnicode "byte list"
  | PyBytes "byte list"
  | Py_None
  | apsw_no_change_object
  | PySet "pyobject list"

text \<open>
  A host set holds no two elements that are equal under the host's \<open>==\<close>, which is not
  identity of representation: numbers are compared by the number they stand for, so the
  integer 1 equals the float 1.0 and 0.0 equals -0.0, while a float that is not a number
  equals nothing, itself included. \<open>py_key\<close> gives an object what it is compared by;
  objects without a key are equal to nothing. Text, bytes and the two singletons are equal
  only to their like. The objects here are values, not references: the floats the conversion
  hands to a set are new objects each time, so the host's shortcut for one and the same
  object never applies to them.
\<close>

datatype key =
    Key_number rat
  | Key_infinity bool
  | Key_unicode "byte list"
  | Key_bytes "byte list"
  | Key_None
  | Key_no_change

fun py_key :: "pyobject \<Rightarrow> key option" where
  "py_key (PyLong i) = Some (Key_number (of_int i))"
| "py_key (PyFloat d) =
     (if double_is_nan d then None
      else if double_is_infinite d then Some (Key_infinity (double_negative d))
      else Some (Key_number (double_value d)))"
| "py_key (PyUnicode u) = Some (Key_unicode u)"
| "py_key (PyBytes b) = Some (Key_bytes b)"
| "py_key Py_None = Some Key_None"
| "py_key apsw_no_change_object = Some Key_no_change"
| "py_key (PySet st) = None"

definition py_equal :: "pyobject \<Rightarrow> pyobject \<Rightarrow> bool" where
  "py_equal x y = (py_key x \<noteq> None \<and> py_key x = py_key y)"

text \<open>A set cannot be an element of a set: the host refuses to hash it.\<close>

fun hashable :: "pyobject \<Rightarrow> bool" where
  "hashable (PySet st) = False"
| "hashable _ = True"

text \<open>Adding to a set keeps the element already there when an equal one is added.\<close>

definition py_set_add :: "pyobject list \<Rightarrow> pyobject \<Rightarrow> pyobject list" where
  "py_set_add st v = (if list_ex (\<lambda>x. py_equal x v) st then st else st @ [v])"

text \<open>
  Host state threaded through a conversion.
  \<^item> \<open>faults\<close>: the outcome of each coming fallible host call, in call order
    (\<open>None\<close>: it succeeds; \<open>Some e\<close>: it fails and raises \<open>e\<close>); when the list is
    used up every call succeeds. This is the fault-injection view of
    \<open>#include "faultinject.h"\<close>: any allocation or decoding step may fail.
  \<^item> \<open>err\<close>: the host's error indicator.
  \<^item> \<open>refs\<close>: how many object references the C code currently owns.
  \<^item> \<open>in_calls\<close>: result codes of the calls made so far to
    \<open>sqlite3_vtab_in_first\<close> and \<open>sqlite3_vtab_in_next\<close>.
  Anything else (state of other operations) sits in the record's extension.
\<close>

datatype in_call = In_First int | In_Next int

record hoststate =
  faults :: "exc_type option list"
  err :: "exc_type option"
  refs :: int
  in_calls :: "in_call list"

definition host_call :: "'a hoststate_scheme \<Rightarrow> bool \<times> 'a hoststate_scheme" where
  "host_call s =
     (case faults s of
        [] \<Rightarrow> (True, s)
      | None # fs \<Rightarrow> (True, s\<lparr>faults := fs\<rparr>)
      | Some e # fs \<Rightarrow> (False, s\<lparr>faults := fs, err := Some e\<rparr>))"

text \<open>A host constructor: a new reference on success, NULL with an exception set on failure.\<close>

definition host_new :: "pyobject \<Rightarrow> 'a hoststate_scheme \<Rightarrow> pyobject option \<times> 'a hoststate_scheme" where
  "host_new obj s =
     (case host_call s of
        (True, s') \<Rightarrow> (Some obj, s'\<lparr>refs := refs s' + 1\<rparr>)
      | (False, s') \<Rightarrow> (None, s'))"

definition PyLong_FromLongLong :: "64 word \<Rightarrow> 'a hoststate_scheme \<Rightarrow> pyobject option \<times> 'a hoststate_scheme" where
  "PyLong_FromLongLong val = host_new (PyLong (sint val))"

definition PyFloat_FromDouble :: "double \<Rightarrow> 'a hoststate_scheme \<Rightarrow> pyobject option \<times> 'a hoststate_scheme" where
  "PyFloat_FromDouble d = host_new (PyFloat d)"

definition PyUnicode_FromStringAndSize :: "byte list \<Rightarrow> nat \<Rightarrow> 'a hoststate_scheme \<Rightarrow> pyobject option \<times> 'a hoststate_scheme" where
  "PyUnicode_FromStringAndSize u n = host_new (PyUnicode (take n u))"

definition PyBytes_FromStringAndSize :: "byte list \<Rightarrow> nat \<Rightarrow> 'a hoststate_scheme \<Rightarrow> pyobject option \<times> 'a hoststate_scheme" where
  "PyBytes_FromStringAndSize b n = host_new (PyBytes (take n b))"

definition PySet_New :: "'a hoststate_scheme \<Rightarrow> pyobject list option \<times> 'a hoststate_scheme" where
  "PySet_New s =
     (case host_call s of
        (True, s') \<Rightarrow> (Some [], s'\<lparr>refs := refs s' + 1\<rparr>)
      | (False, s') \<Rightarrow> (None, s'))"

text \<open>
  \<open>PySet_Add\<close>: the updated set on success (C result 0), \<open>None\<close> on failure (C result -1).
  It fails with \<open>TypeError\<close> for an object that cannot be hashed, and like any host call when
  the host cannot make room.
\<close>

definition PySet_Add :: "pyobject list \<Rightarrow> pyobject \<Rightarrow> 'a hoststate_scheme \<Rightarrow> pyobject list option \<times> 'a hoststate_scheme" where
  "PySet_Add st v s =
     (if \<not> hashable v then (None, s\<lparr>err := Some (PyExc_Other ''TypeError'')\<rparr>)
      else
        (case host_call s of
           (True, s') \<Rightarrow> (Some (py_set_add st v), s')
         | (False, s') \<Rightarrow> (None, s')))"

text \<open>\<open>Py_NewRef\<close> and \<open>Py_RETURN_NONE\<close> hand out a new reference and cannot fail.\<close>

definition Py_NewRef :: "pyobject \<Rightarrow> 'a hoststate_scheme \<Rightarrow> pyobject option \<times> 'a hoststate_scheme" where
  "Py_NewRef obj s = (Some obj, s\<lparr>refs := refs s + 1\<rparr>)"

definition Py_RETURN_NONE :: "'a hoststate_scheme \<Rightarrow> pyobject option \<times> 'a hoststate_scheme" where
  "Py_RETURN_NONE s = Py_NewRef Py_None s"

text \<open>\<open>Py_XDECREF\<close> and \<open>Py_CLEAR\<close>: drop one owned reference unless the pointer is NULL.\<close>

definition Py_XDECREF :: "'p option \<Rightarrow> 'a hoststate_scheme \<Rightarrow> 'a hoststate_scheme" where
  "Py_XDECREF p s = (case p of None \<Rightarrow> s | Some _ \<Rightarrow> s\<lparr>refs := refs s - 1\<rparr>)"

definition Py_CLEAR :: "'p option \<Rightarrow> 'a hoststate_scheme \<Rightarrow> 'a hoststate_scheme" where
  "Py_CLEAR p s = Py_XDECREF p s"

definition PyErr_Format :: "exc_type \<Rightarrow> 'a hoststate_scheme \<Rightarrow> 'a hoststate_scheme" where
  "PyErr_Format e s = s\<lparr>err := Some e\<rparr>"

definition log_in_call :: "in_call \<Rightarrow> 'a hoststate_scheme \<Rightarrow> 'a hoststate_scheme" where
  "log_in_call c s = s\<lparr>in_calls := in_calls s @ [c]\<rparr>"

text \<open>
  \<open>convert_value_to_pyobject value in_constraint_possible no_change_possible\<close>, with
  the \<open>while (in_value)\<close> loop of its NULL branch as \<open>in_constraint_loop\<close>. The loop's
  arguments are the C locals: the engine's cursor, \<open>in_value\<close> and \<open>set\<close>. A result
  \<open>None\<close> is the C \<open>NULL\<close>.
\<close>

function convert_value_to_pyobject ::
    "sqlite3_value \<Rightarrow> bool \<Rightarrow> bool \<Rightarrow> 'a hoststate_scheme \<Rightarrow> pyobject option \<times> 'a hoststate_scheme"
  and in_constraint_loop ::
    "in_cursor \<Rightarrow> sqlite3_value option \<Rightarrow> pyobject list \<Rightarrow> 'a hoststate_scheme \<Rightarrow> pyobject option \<times> 'a hoststate_scheme"
where
  "convert_value_to_pyobject v in_constraint_possible no_change_possible s =
     (let coltype = sqlite3_value_type v in
      if no_change_possible \<and> sqlite3_value_nochange v then Py_NewRef apsw_no_change_object s
      else if coltype = SQLITE_INTEGER then PyLong_FromLongLong (sqlite3_value_int64 v) s
      else if coltype = SQLITE_FLOAT then PyFloat_FromDouble (sqlite3_value_double v) s
      else if coltype = SQLITE_TEXT then
        PyUnicode_FromStringAndSize (sqlite3_value_text v) (sqlite3_value_bytes v) s
      else if coltype = SQLITE_BLOB then
        PyBytes_FromStringAndSize (sqlite3_value_blob v) (sqlite3_value_bytes v) s
      else if in_constraint_possible then
        (case sqlite3_vtab_in_first v of
           (rc, in_value, cur) \<Rightarrow>
             let s0 = log_in_call (In_First rc) s in
             if rc = SQLITE_OK then
               (case PySet_New s0 of
                  (None, s1) \<Rightarrow> (None, s1)
                | (Some st, s1) \<Rightarrow> in_constraint_loop cur in_value st s1)
             else Py_RETURN_NONE s0)
      else Py_RETURN_NONE s)"
| "in_constraint_loop cur in_value st s =
     (case in_value of
        None \<Rightarrow> (Some (PySet st), s)
      | Some iv \<Rightarrow>
          (case convert_value_to_pyobject iv False False s of
             (None, s1) \<Rightarrow> (None, Py_XDECREF (Some st) (Py_XDECREF (None :: pyobject option) s1))
           | (Some v, s1) \<Rightarrow>
               (case PySet_Add st v s1 of
                  (None, s2) \<Rightarrow> (None, Py_XDECREF (Some st) (Py_XDECREF (Some v) s2))
                | (Some st', s2) \<Rightarrow>
                    (let s3 = Py_CLEAR (Some v) s2 in
                     case sqlite3_vtab_in_next cur of
                       (res, in_value', cur') \<Rightarrow>
                         let s4 = log_in_call (In_Next res) s3 in
                         if res \<noteq> SQLITE_DONE \<and> res \<noteq> SQLITE_OK then
                           (None, Py_XDECREF (Some st')
                                    (Py_XDECREF (None :: pyobject option)
                                       (PyErr_Format PyExc_ValueError s4)))
                         else in_constraint_loop cur' in_value' st' s4))))"
  by pat_completeness auto
termination
  by (relation "measure (\<lambda>x. case x of
          Inl (v, icp, ncp, s) \<Rightarrow> if icp then length (vtab_in v) + 3 else 0
        | Inr (cur, in_value, st, s) \<Rightarrow> length cur + (if in_value = None then 1 else 2))")
     (auto simp: sqlite3_vtab_in_first_def sqlite3_vtab_in_next_def split: list.splits)

text \<open>\<open>convert_value_to_pyobject_not_in(value)\<close> is \<open>convert_value_to_pyobject(value, 0, 0)\<close>.\<close>

definition convert_value_to_pyobject_not_in ::
    "sqlite3_value \<Rightarrow> 'a hoststate_scheme \<Rightarrow> pyobject option \<times> 'a hoststate_scheme" where
  "convert_value_to_pyobject_not_in v s = convert_value_to_pyobject v False False s"

section \<open>Execution lock bridge and reentrancy guard\<close>

text \<open>
  The macros \<^verbatim>\<open>_PYSQLITE_CALL_V\<close>, \<^verbatim>\<open>_PYSQLITE_CALL_E\<close>, \<^verbatim>\<open>INUSE_CALL\<close>, the call-site
  macros built from them, and \<^verbatim>\<open>CHECK_USE\<close>. A database handle \<^verbatim>\<open>sqlite3 *\<close> is a number;
  the handle's mutex \<open>sqlite3_db_mutex(db)\<close> is named by the handle.
\<close>

type_synonym sqlite3 = nat

text \<open>
  What a thread does to the two locks and to the error text is recorded as a list of events,
  oldest first, so that the order of the steps of a call can be stated.
\<close>

datatype event =
    Ev_gil_release
  | Ev_gil_acquire
  | Ev_mutex_enter sqlite3
  | Ev_mutex_leave sqlite3
  | Ev_native_call
  | Ev_errmsg_read sqlite3
  | Ev_errmsg_copy string

text \<open>
  The macro argument \<open>x\<close> is a call into the engine. The engine keeps one error text per
  handle; a native operation reads and possibly replaces those texts and yields a result code.
  It does not touch the runtime lock, the in-use flag or the stored copy of the error text.
\<close>

type_synonym native_op = "(sqlite3 \<Rightarrow> string) \<Rightarrow> int \<times> (sqlite3 \<Rightarrow> string)"

text \<open>
  The state a call works on, added to the host state:
  \<^item> \<open>inuse\<close>: \<open>self->inuse\<close>;
  \<^item> \<open>gil_held\<close>: whether this thread holds the runtime lock;
  \<^item> \<open>res\<close>: the C variable \<open>res\<close> the checked call assumes;
  \<^item> \<open>db_errmsg\<close>: the engine's current error text of each handle;
  \<^item> \<open>apsw_errmsg\<close>: the store \<open>apsw_set_errmsg\<close> writes;
  \<^item> \<open>events\<close>: the events so far.
\<close>

record callstate = hoststate +
  inuse :: int
  gil_held :: bool
  res :: int
  db_errmsg :: "sqlite3 \<Rightarrow> string"
  apsw_errmsg :: "string option"
  events :: "event list"

definition log_event :: "event \<Rightarrow> 'a callstate_scheme \<Rightarrow> 'a callstate_scheme" where
  "log_event e s = s\<lparr>events := events s @ [e]\<rparr>"

definition Py_BEGIN_ALLOW_THREADS :: "'a callstate_scheme \<Rightarrow> 'a callstate_scheme" where
  "Py_BEGIN_ALLOW_THREADS s = log_event Ev_gil_release (s\<lparr>gil_held := False\<rparr>)"

definition Py_END_ALLOW_THREADS :: "'a callstate_scheme \<Rightarrow> 'a callstate_scheme" where
  "Py_END_ALLOW_THREADS s = log_event Ev_gil_acquire (s\<lparr>gil_held := True\<rparr>)"

definition sqlite3_mutex_enter :: "sqlite3 \<Rightarrow> 'a callstate_scheme \<Rightarrow> 'a callstate_scheme" where
  "sqlite3_mutex_enter db s = log_event (Ev_mutex_enter db) s"

definition sqlite3_mutex_leave :: "sqlite3 \<Rightarrow> 'a callstate_scheme \<Rightarrow> 'a callstate_scheme" where
  "sqlite3_mutex_leave db s = log_event (Ev_mutex_leave db) s"

definition sqlite3_errmsg :: "sqlite3 \<Rightarrow> 'a callstate_scheme \<Rightarrow> string \<times> 'a callstate_scheme" where
  "sqlite3_errmsg db s = (db_errmsg s db, log_event (Ev_errmsg_read db) s)"

text \<open>
  Modelled from the spec: \<open>apsw_set_errmsg\<close> is defined in another file of the repository.
  The spec has it copy the text it is given into owned storage, so the store holds the text
  itself and not a reference to the handle's buffer.
\<close>

definition apsw_set_errmsg :: "string \<Rightarrow> 'a callstate_scheme \<Rightarrow> 'a callstate_scheme" where
  "apsw_set_errmsg msg s = log_event (Ev_errmsg_copy msg) (s\<lparr>apsw_errmsg := Some msg\<rparr>)"

text \<open>
  Running the macro argument: \<open>native_void\<close> for a call whose result is not a result code
  (\<open>res\<close> is left alone), \<open>native_res\<close> for \<open>res = sqlite3_...(...)\<close>.
\<close>

definition native_void :: "native_op \<Rightarrow> 'a callstate_scheme \<Rightarrow> 'a callstate_scheme" where
  "native_void x s = log_event Ev_native_call (s\<lparr>db_errmsg := snd (x (db_errmsg s))\<rparr>)"

definition native_res :: "native_op \<Rightarrow> 'a callstate_scheme \<Rightarrow> 'a callstate_scheme" where
  "native_res x s = log_event Ev_native_call (s\<lparr>res := fst (x (db_errmsg s)), db_errmsg := snd (x (db_errmsg s))\<rparr>)"

text \<open>
  \<^verbatim>\<open>#define _PYSQLITE_CALL_V(x) do { Py_BEGIN_ALLOW_THREADS { x; } Py_END_ALLOW_THREADS; } while (0)\<close>
\<close>

definition PYSQLITE_CALL_V :: "native_op \<Rightarrow> 'a callstate_scheme \<Rightarrow> 'a callstate_scheme" where
  "PYSQLITE_CALL_V x s = Py_END_ALLOW_THREADS (native_void x (Py_BEGIN_ALLOW_THREADS s))"

text \<open>
  \<^verbatim>\<open>#define _PYSQLITE_CALL_E(db, x)\<close>: between \<open>Py_BEGIN_ALLOW_THREADS\<close> and
  \<open>Py_END_ALLOW_THREADS\<close>, \<open>sqlite3_mutex_enter(sqlite3_db_mutex(db)); x;
  if (res != SQLITE_OK && res != SQLITE_DONE && res != SQLITE_ROW)
  apsw_set_errmsg(sqlite3_errmsg((db))); sqlite3_mutex_leave(sqlite3_db_mutex(db));\<close>
\<close>

definition PYSQLITE_CALL_E :: "sqlite3 \<Rightarrow> native_op \<Rightarrow> 'a callstate_scheme \<Rightarrow> 'a callstate_scheme" where
  "PYSQLITE_CALL_E db x s =
     (let s1 = Py_BEGIN_ALLOW_THREADS s;
          s2 = sqlite3_mutex_enter db s1;
          s3 = native_res x s2;
          s4 = (if res s3 \<noteq> SQLITE_OK \<and> res s3 \<noteq> SQLITE_DONE \<and> res s3 \<noteq> SQLITE_ROW
                then (case sqlite3_errmsg db s3 of (msg, s') \<Rightarrow> apsw_set_errmsg msg s')
                else s3);
          s5 = sqlite3_mutex_leave db s4
      in Py_END_ALLOW_THREADS s5)"

text \<open>
  A C \<open>assert\<close>: with \<open>NDEBUG\<close> defined (\<open>ndebug\<close>) it is compiled out, otherwise a false
  condition aborts the process, which is the result \<open>None\<close>.
\<close>

definition c_assert :: "bool \<Rightarrow> bool \<Rightarrow> 'a \<Rightarrow> 'a option" where
  "c_assert ndebug cond s = (if ndebug \<or> cond then Some s else None)"

text \<open>
  \<^verbatim>\<open>#define INUSE_CALL(x)\<close>: \<open>assert(self->inuse == 0); self->inuse = 1; { x; }
  assert(self->inuse == 1); self->inuse = 0;\<close>
\<close>

definition INUSE_CALL :: "bool \<Rightarrow> ('a callstate_scheme \<Rightarrow> 'a callstate_scheme) \<Rightarrow> 'a callstate_scheme \<Rightarrow> 'a callstate_scheme option" where
  "INUSE_CALL ndebug x s =
     (case c_assert ndebug (inuse s = 0) s of
        None \<Rightarrow> None
      | Some s0 \<Rightarrow>
          (let s1 = s0\<lparr>inuse := 1\<rparr>;
               s2 = x s1
           in case c_assert ndebug (inuse s2 = 1) s2 of
                None \<Rightarrow> None
              | Some s3 \<Rightarrow> Some (s3\<lparr>inuse := 0\<rparr>)))"

text \<open>
  The call-site macros. Each names the handle whose mutex is taken by a path from \<open>self\<close>
  (or \<open>sc\<close>): \<open>self->connection->db\<close> for blobs and cursors, \<open>self->db\<close> for connections,
  \<open>sc->db\<close> for the statement cache, \<open>self->dest->db\<close> for backups. The handle so named is
  the argument here.
\<close>

definition PYSQLITE_BLOB_CALL :: "bool \<Rightarrow> sqlite3 \<Rightarrow> native_op \<Rightarrow> 'a callstate_scheme \<Rightarrow> 'a callstate_scheme option" where
  "PYSQLITE_BLOB_CALL ndebug self_connection_db y = INUSE_CALL ndebug (PYSQLITE_CALL_E self_connection_db y)"

definition PYSQLITE_CON_CALL :: "bool \<Rightarrow> sqlite3 \<Rightarrow> native_op \<Rightarrow> 'a callstate_scheme \<Rightarrow> 'a callstate_scheme option" where
  "PYSQLITE_CON_CALL ndebug self_db y = INUSE_CALL ndebug (PYSQLITE_CALL_E self_db y)"

definition PYSQLITE_CUR_CALL :: "bool \<Rightarrow> sqlite3 \<Rightarrow> native_op \<Rightarrow> 'a callstate_scheme \<Rightarrow> 'a callstate_scheme option" where
  "PYSQLITE_CUR_CALL = PYSQLITE_BLOB_CALL"

definition PYSQLITE_SC_CALL :: "sqlite3 \<Rightarrow> native_op \<Rightarrow> 'a callstate_scheme \<Rightarrow> 'a callstate_scheme" where
  "PYSQLITE_SC_CALL sc_db y = PYSQLITE_CALL_E sc_db y"

definition PYSQLITE_VOID_CALL :: "bool \<Rightarrow> native_op \<Rightarrow> 'a callstate_scheme \<Rightarrow> 'a callstate_scheme option" where
  "PYSQLITE_VOID_CALL ndebug y = INUSE_CALL ndebug (PYSQLITE_CALL_V y)"

definition PYSQLITE_BACKUP_CALL :: "bool \<Rightarrow> sqlite3 \<Rightarrow> native_op \<Rightarrow> 'a callstate_scheme \<Rightarrow> 'a callstate_scheme option" where
  "PYSQLITE_BACKUP_CALL ndebug self_dest_db y = INUSE_CALL ndebug (PYSQLITE_CALL_E self_dest_db y)"

text \<open>
  \<^verbatim>\<open>#define CHECK_USE(e)\<close>: \<open>if (self->inuse) { if (!PyErr_Occurred())
  PyErr_Format(ExcThreadingViolation, ...); return e; }\<close>. The result \<open>Some e\<close> is the
  \<open>return e\<close> of the enclosing function; \<open>None\<close> is falling through to the code after
  the macro.
\<close>

definition PyErr_Occurred :: "'a hoststate_scheme \<Rightarrow> bool" where
  "PyErr_Occurred s = (err s \<noteq> None)"

definition CHECK_USE :: "'r \<Rightarrow> 'a callstate_scheme \<Rightarrow> 'r option \<times> 'a callstate_scheme" where
  "CHECK_USE e s =
     (if inuse s \<noteq> 0 then
        (Some e, if \<not> PyErr_Occurred s then PyErr_Format ExcThreadingViolation s else s)
      else (None, s))"

subsection \<open>Notions used to state the properties of the bridge\<close>

text \<open>
  \<open>lock_order_ok g held es\<close> replays the events \<open>es\<close> of one thread that starts holding the
  runtime lock iff \<open>g\<close> and having entered the mutexes \<open>held\<close>, and checks the ordering
  rule at every lock event: the runtime lock is released only when held and with no mutex
  entered; a mutex is entered only while the runtime lock is not held; a mutex is left only
  if entered; the runtime lock is retaken only when it is not held and every mutex entered has
  been left. So the thread never holds the runtime lock together with a mutex.
\<close>

fun lock_order_ok :: "bool \<Rightarrow> sqlite3 list \<Rightarrow> event list \<Rightarrow> bool" where
  "lock_order_ok g held [] = True"
| "lock_order_ok g held (Ev_gil_release # es) = (g \<and> held = [] \<and> lock_order_ok False held es)"
| "lock_order_ok g held (Ev_gil_acquire # es) = (\<not> g \<and> held = [] \<and> lock_order_ok True held es)"
| "lock_order_ok g held (Ev_mutex_enter db # es) = (\<not> g \<and> lock_order_ok g (db # held) es)"
| "lock_order_ok g held (Ev_mutex_leave db # es) = (db \<in> set held \<and> lock_order_ok g (remove1 db held) es)"
| "lock_order_ok g held (_ # es) = lock_order_ok g held es"

text \<open>
  \<open>capture_protected g held es\<close> replays the same way and checks every capture of an error
  text: the read of the handle's text is followed at once by the copy, and both happen while
  the handle's mutex is entered and the runtime lock is not held.
\<close>

fun capture_protected :: "bool \<Rightarrow> sqlite3 list \<Rightarrow> event list \<Rightarrow> bool" where
  "capture_protected g held [] = True"
| "capture_protected g held (Ev_gil_release # es) = capture_protected False held es"
| "capture_protected g held (Ev_gil_acquire # es) = capture_protected True held es"
| "capture_protected g held (Ev_mutex_enter db # es) = capture_protected g (db # held) es"
| "capture_protected g held (Ev_mutex_leave db # es) = capture_protected g (remove1 db held) es"
| "capture_protected g held (Ev_errmsg_read db # Ev_errmsg_copy m # es) =
     (\<not> g \<and> db \<in> set held \<and> capture_protected g held es)"
| "capture_protected g held (Ev_errmsg_read db # es) = False"
| "capture_protected g held (Ev_errmsg_copy m # es) = False"
| "capture_protected g held (Ev_native_call # es) = capture_protected g held es"

text \<open>The result codes after which the checked call does not capture the error text.\<close>

definition accepted :: "int \<Rightarrow> bool" where
  "accepted rc = (rc = SQLITE_OK \<or> rc = SQLITE_ROW \<or> rc = SQLITE_DONE)"

text \<open>The events a step from \<open>s\<close> to \<open>s'\<close> added.\<close>

definition new_events :: "'a callstate_scheme \<Rightarrow> 'a callstate_scheme \<Rightarrow> event list" where
  "new_events s s' = drop (length (events s)) (events s')"

fun is_lock_event :: "event \<Rightarrow> bool" where
  "is_lock_event Ev_gil_release = True"
| "is_lock_event Ev_gil_acquire = True"
| "is_lock_event (Ev_mutex_enter db) = True"
| "is_lock_event (Ev_mutex_leave db) = True"
| "is_lock_event _ = False"

text \<open>
  A call from \<open>s\<close> to \<open>s'\<close> keeps the lock discipline with lock events \<open>order\<close>: it only
  adds events, its lock events are exactly \<open>order\<close>, they obey the ordering rule starting
  from the locks held in \<open>s\<close> and no mutex entered by the call, and the runtime lock is held
  again at the end.
\<close>

definition lock_discipline :: "event list \<Rightarrow> 'a callstate_scheme \<Rightarrow> 'a callstate_scheme \<Rightarrow> bool" where
  "lock_discipline order s s' =
     (events s' = events s @ new_events s s'
      \<and> filter is_lock_event (new_events s s') = order
      \<and> lock_order_ok (gil_held s) [] (new_events s s')
      \<and> gil_held s')"

section \<open>Call-context tracker\<close>

text \<open>
  The macros \<^verbatim>\<open>CALL_TRACK\<close>, \<^verbatim>\<open>CALL_TRACK_INIT\<close>, \<^verbatim>\<open>CALL_ENTER\<close>, \<^verbatim>\<open>CALL_LEAVE\<close> and
  \<^verbatim>\<open>CALL_CHECK\<close>. The names are those with a magic number in the file.
\<close>

datatype call_name = xConnect | xUpdate

fun MAGIC :: "call_name \<Rightarrow> int" where
  "MAGIC xConnect = 0x008295ab"
| "MAGIC xUpdate = 0x119306bc"

text \<open>
  \<open>CALL_TRACK(name)\<close> declares the slot \<open>int *in_call##name\<close> in an object. The sentinels are
  \<open>int\<close> locals of the callbacks; \<open>c_stack\<close> holds them, oldest first, and the address of a
  sentinel is its position. A new local gets the next position, one that held nothing before.
  The locals that \<open>CALL_ENTER\<close> declares in the callback, \<open>enter_call_save_##name\<close> and
  \<open>enter_call_here_##name\<close> (by its address), are the record \<open>call_locals\<close> that
  \<open>CALL_LEAVE\<close> in the same callback reads.
\<close>

type_synonym address = nat
type_synonym object_id = nat

record tracking =
  in_call :: "object_id \<Rightarrow> call_name \<Rightarrow> address option"
  c_stack :: "int list"

record call_locals =
  enter_call_save :: "address option"
  enter_call_here :: address

text \<open>Reading \<open>*p\<close>: \<open>None\<close> when \<open>p\<close> is not the address of a sentinel.\<close>

definition deref :: "'a tracking_scheme \<Rightarrow> address \<Rightarrow> int option" where
  "deref s a = (if a < length (c_stack s) then Some (c_stack s ! a) else None)"

definition CALL_TRACK_INIT :: "object_id \<Rightarrow> call_name \<Rightarrow> 'a tracking_scheme \<Rightarrow> 'a tracking_scheme" where
  "CALL_TRACK_INIT self name s = s\<lparr>in_call := (in_call s)(self := (in_call s self)(name := None))\<rparr>"

text \<open>
  \<^verbatim>\<open>#define CALL_ENTER(name)\<close>:
  \<open>assert(self->in_call##name == NULL || *(self->in_call##name) == MAGIC_##name);
  int *enter_call_save_##name = self->in_call##name;
  int enter_call_here_##name = MAGIC_##name;
  self->in_call##name = &enter_call_here_##name\<close>
\<close>

definition CALL_ENTER ::
    "bool \<Rightarrow> object_id \<Rightarrow> call_name \<Rightarrow> 'a tracking_scheme \<Rightarrow> (call_locals \<times> 'a tracking_scheme) option" where
  "CALL_ENTER ndebug self name s =
     (case c_assert ndebug
             (case in_call s self name of
                None \<Rightarrow> True
              | Some a \<Rightarrow> deref s a = Some (MAGIC name)) s of
        None \<Rightarrow> None
      | Some _ \<Rightarrow>
          (let enter_call_save_name = in_call s self name;
               enter_call_here_name = length (c_stack s);
               s1 = s\<lparr>c_stack := c_stack s @ [MAGIC name]\<rparr>
           in Some (\<lparr>enter_call_save = enter_call_save_name, enter_call_here = enter_call_here_name\<rparr>,
                    s1\<lparr>in_call := (in_call s1)(self := (in_call s1 self)(name := Some enter_call_here_name))\<rparr>)))"

text \<open>\<^verbatim>\<open>#define CALL_LEAVE(name) self->in_call##name = enter_call_save_##name\<close>\<close>

definition CALL_LEAVE :: "object_id \<Rightarrow> call_name \<Rightarrow> call_locals \<Rightarrow> 'a tracking_scheme \<Rightarrow> 'a tracking_scheme" where
  "CALL_LEAVE self name locals s =
     s\<lparr>in_call := (in_call s)(self := (in_call s self)(name := enter_call_save locals))\<rparr>"

text \<open>\<^verbatim>\<open>#define CALL_CHECK(name) (self->in_call##name != NULL)\<close>\<close>

definition CALL_CHECK :: "object_id \<Rightarrow> call_name \<Rightarrow> 'a tracking_scheme \<Rightarrow> bool" where
  "CALL_CHECK self name s = (in_call s self name \<noteq> None)"

subsection \<open>Notions used to state the properties of the tracker\<close>

text \<open>
  Nested callbacks on one object: \<open>enter_all\<close> runs \<open>CALL_ENTER\<close> for each name in turn, the
  first name outermost, and returns the locals of the callbacks, innermost first;
  \<open>leave_all\<close> runs \<open>CALL_LEAVE\<close> for each, innermost first, as the callbacks return.
\<close>

fun enter_all ::
    "bool \<Rightarrow> object_id \<Rightarrow> call_name list \<Rightarrow> 'a tracking_scheme
     \<Rightarrow> ((call_name \<times> call_locals) list \<times> 'a tracking_scheme) option" where
  "enter_all ndebug self [] s = Some ([], s)"
| "enter_all ndebug self (name # names) s =
     (case CALL_ENTER ndebug self name s of
        None \<Rightarrow> None
      | Some (locals, s1) \<Rightarrow>
          (case enter_all ndebug self names s1 of
             None \<Rightarrow> None
           | Some (inner, s2) \<Rightarrow> Some (inner @ [(name, locals)], s2)))"

fun leave_all :: "object_id \<Rightarrow> (call_name \<times> call_locals) list \<Rightarrow> 'a tracking_scheme \<Rightarrow> 'a tracking_scheme" where
  "leave_all self [] s = s"
| "leave_all self ((name, locals) # outer) s = leave_all self outer (CALL_LEAVE self name locals s)"

text \<open>Every active slot of the object points to a sentinel holding its name's magic number.\<close>

definition sentinels_valid :: "object_id \<Rightarrow> 'a tracking_scheme \<Rightarrow> bool" where
  "sentinels_valid self s =
     (\<forall>name. case in_call s self name of None \<Rightarrow> True | Some a \<Rightarrow> deref s a = Some (MAGIC name))"

section \<open>Unraisable exception dispatcher: \<open>apsw_write_unraisable\<close>\<close>

text \<open>
  A Python frame is named by a string. An exception is the triple the error indicator holds:
  its type, its value (possibly NULL) and its traceback, newest entry first. Of a value the
  dispatcher uses \<open>Py_TypeName\<close> and the text for the log, \<open>str_utf8\<close>: \<open>None\<close> when
  \<open>PyObject_Str\<close> fails, \<open>Some None\<close> when \<open>PyUnicode_AsUTF8\<close> fails, else the text.
\<close>

type_synonym frame = string

datatype exc_value = Exc_Value (Py_TypeName: string) (str_utf8: "string option option")

datatype exception = Exception (err_type: exc_type) (err_value: "exc_value option") (err_traceback: "frame list")

text \<open>
  A hook is user code; what it can do that matters to the dispatcher is to return a result,
  to raise, or to run something in which an exception arises that cannot be raised, so that
  the dispatcher is entered again (with that exception pending and some call-site object),
  and then go on. A call-site object \<open>hookobject\<close> is \<open>None\<close> for NULL, \<open>Some None\<close> for an
  object on which getting \<open>excepthook\<close> fails, and \<open>Some (Some h)\<close> for one whose
  \<open>excepthook\<close> is \<open>h\<close>.
\<close>

datatype hook =
    Hook_returns
  | Hook_raises exception
  | Hook_unraisable exception "hook option option" hook

datatype hook_kind = Hookobject_excepthook | Sys_unraisablehook | Sys_excepthook

text \<open>
  The steps of the dispatcher that reach outside it, as events. A hook call records which
  hook, the exception passed, the error indicator at the time of the call, the events of the
  dispatcher invocations made while the hook ran, and whether the hook returned a result.
  A display records the exception displayed and the error indicator at that time;
  \<open>PyErr_Print\<close> displays the error indicator.
\<close>

datatype devent =
    Ev_traceback_here frame
  | Ev_sqlite3_log int string "string option"
  | Ev_hook hook_kind "exception option" "exception option" "devent list" bool
  | Ev_display "exception option" "exception option"
  | Ev_print "exception option"

text \<open>
  Process-wide settings the dispatcher reads: the two hooks of the \<open>sys\<close> module (absent
  when \<open>PySys_GetObject\<close> returns NULL), the recursion limit that \<open>Py_EnterRecursiveCall\<close>
  enforces, whether the build is for PyPy (\<open>#ifdef PYPY_VERSION\<close>), whether
  \<open>PyStructSequence_New\<close> succeeds, and what normalising an exception gives.

  \<open>PyErr_NormalizeException\<close> makes the value an instance of the exception's class. A value
  that is NULL, or that is not an instance yet, is replaced by the instance the host makes by
  calling the class; if that call raises, the exception it raised takes the place of the
  triple and is normalised in turn. What comes out depends on the host's version and on the
  classes, so it is a parameter here, \<open>normalize\<close>: the triple that comes out of
  normalising a given exception. Its value is never NULL.
\<close>

record sys_module =
  unraisablehook :: "hook option"
  excepthook :: "hook option"
  recursion_limit :: nat
  PYPY_VERSION :: bool
  struct_new_ok :: bool
  normalize :: "exception \<Rightarrow> exc_type \<times> exc_value \<times> frame list"

text \<open>
  The thread's state: the error indicator, the Python frames from the current one outwards
  (\<open>PyThreadState_GetFrame\<close> and the \<open>f_back\<close> chain), and the events so far.
\<close>

record pythread =
  pending :: "exception option"
  py_frames :: "frame list"
  dlog :: "devent list"

definition dlog_add :: "devent \<Rightarrow> 'a pythread_scheme \<Rightarrow> 'a pythread_scheme" where
  "dlog_add e s = s\<lparr>dlog := dlog s @ [e]\<rparr>"

definition PyTraceBack_Here :: "frame \<Rightarrow> 'a pythread_scheme \<Rightarrow> 'a pythread_scheme" where
  "PyTraceBack_Here f s =
     dlog_add (Ev_traceback_here f)
       (s\<lparr>pending := map_option (\<lambda>e. Exception (err_type e) (err_value e) (f # err_traceback e)) (pending s)\<rparr>)"

definition PyErr_Clear :: "'a pythread_scheme \<Rightarrow> 'a pythread_scheme" where
  "PyErr_Clear s = s\<lparr>pending := None\<rparr>"

definition PyErr_Fetch :: "'a pythread_scheme \<Rightarrow> exception option \<times> 'a pythread_scheme" where
  "PyErr_Fetch s = (pending s, s\<lparr>pending := None\<rparr>)"

text \<open>
  \<open>PyErr_NormalizeException(&err_type, &err_value, &err_traceback)\<close> works on the three
  locals and leaves the error indicator alone; with no exception (\<open>err_type\<close> NULL) it does
  nothing.
\<close>

definition PyErr_NormalizeException :: "sys_module \<Rightarrow> exception option \<Rightarrow> exception option" where
  "PyErr_NormalizeException sys exc =
     (case exc of
        None \<Rightarrow> None
      | Some e \<Rightarrow> (case normalize sys e of (t, v, tb) \<Rightarrow> Some (Exception t (Some v) tb)))"

definition PyErr_Print :: "'a pythread_scheme \<Rightarrow> 'a pythread_scheme" where
  "PyErr_Print s = dlog_add (Ev_print (pending s)) (s\<lparr>pending := None\<rparr>)"

definition PyErr_Display :: "exception option \<Rightarrow> 'a pythread_scheme \<Rightarrow> 'a pythread_scheme" where
  "PyErr_Display e s = dlog_add (Ev_display e (pending s)) s"

definition sqlite3_log :: "int \<Rightarrow> string \<Rightarrow> string option \<Rightarrow> 'a pythread_scheme \<Rightarrow> 'a pythread_scheme" where
  "sqlite3_log code tn utf8 s = dlog_add (Ev_sqlite3_log code tn utf8) s"

text \<open>The exceptions the host sets when a recursive call or an allocation fails.\<close>

definition recursion_error :: exception where
  "recursion_error =
     Exception PyExc_RecursionError
       (Some (Exc_Value ''RecursionError''
          (Some (Some ''maximum recursion depth exceeded in apsw_write_unraisable'')))) []"

definition memory_error :: exception where
  "memory_error = Exception (PyExc_Other ''MemoryError'') (Some (Exc_Value ''MemoryError'' (Some (Some [])))) []"

text \<open>
  \<open>Py_EnterRecursiveCall\<close> succeeds while the thread's recursion depth is below the limit and
  otherwise sets \<open>RecursionError\<close>. The depth counts the calls entered and not yet left, so it
  is an argument of the functions here, one more inside a call than outside.
\<close>

definition Py_EnterRecursiveCall :: "nat \<Rightarrow> sys_module \<Rightarrow> 'a pythread_scheme \<Rightarrow> bool \<times> 'a pythread_scheme" where
  "Py_EnterRecursiveCall depth sys s =
     (if depth < recursion_limit sys then (True, s) else (False, s\<lparr>pending := Some recursion_error\<rparr>))"

definition PyStructSequence_New :: "sys_module \<Rightarrow> 'a pythread_scheme \<Rightarrow> bool \<times> 'a pythread_scheme" where
  "PyStructSequence_New sys s =
     (if struct_new_ok sys then (True, s) else (False, s\<lparr>pending := Some memory_error\<rparr>))"

text \<open>
  The block \<open>if (err_value) { message = PyObject_Str(err_value); utf8 = message ?
  PyUnicode_AsUTF8(message) : "failed to get string of error"; PyErr_Clear();
  sqlite3_log(SQLITE_ERROR, "apsw_write_unraisable %s: %s", Py_TypeName(err_value), utf8); }\<close>
\<close>

definition tell_sqlite3_log :: "exception option \<Rightarrow> 'a pythread_scheme \<Rightarrow> 'a pythread_scheme" where
  "tell_sqlite3_log exc s =
     (case exc of
        None \<Rightarrow> s
      | Some e \<Rightarrow>
          (case err_value e of
             None \<Rightarrow> s
           | Some v \<Rightarrow>
               sqlite3_log SQLITE_ERROR (Py_TypeName v)
                 (case str_utf8 v of
                    None \<Rightarrow> Some ''failed to get string of error''
                  | Some utf8 \<Rightarrow> utf8)
                 (PyErr_Clear s)))"

text \<open>
  Finding each hook, with the clearing of the error indicator the code does on the way:
  \<open>if (hookobject) { excepthook = PyObject_GetAttrString(hookobject, "excepthook");
  PyErr_Clear(); ... }\<close>; \<open>excepthook = PySys_GetObject("unraisablehook"); if (excepthook)
  { PyErr_Clear(); arg = PyStructSequence_New(...); if (arg) ... }\<close>;
  \<open>excepthook = PySys_GetObject("excepthook"); if (excepthook) { PyErr_Clear(); ... }\<close>.
  The result is the hook to call, if any.
\<close>

definition get_hookobject_excepthook ::
    "hook option option \<Rightarrow> 'a pythread_scheme \<Rightarrow> hook option \<times> 'a pythread_scheme" where
  "get_hookobject_excepthook hookobject s =
     (case hookobject of
        None \<Rightarrow> (None, s)
      | Some attr \<Rightarrow> (attr, PyErr_Clear s))"

definition get_sys_unraisablehook :: "sys_module \<Rightarrow> 'a pythread_scheme \<Rightarrow> hook option \<times> 'a pythread_scheme" where
  "get_sys_unraisablehook sys s =
     (case unraisablehook sys of
        None \<Rightarrow> (None, s)
      | Some h \<Rightarrow>
          (case PyStructSequence_New sys (PyErr_Clear s) of
             (True, s') \<Rightarrow> (Some h, s')
           | (False, s') \<Rightarrow> (None, s')))"

definition get_sys_excepthook :: "sys_module \<Rightarrow> 'a pythread_scheme \<Rightarrow> hook option \<times> 'a pythread_scheme" where
  "get_sys_excepthook sys s =
     (case excepthook sys of
        None \<Rightarrow> (None, s)
      | Some h \<Rightarrow> (Some h, PyErr_Clear s))"

text \<open>
  \<open>apsw_write_unraisable(hookobject)\<close>, entered at recursion depth \<open>depth\<close>. The branches that
  \<open>goto finally\<close> end in the final \<open>PyErr_Clear\<close>. \<open>call_hook\<close> is
  \<open>if (excepthook) { result = PyObject_CallFunction(excepthook, ...); }\<close> and tells whether
  \<open>result\<close> is not NULL; \<open>hook_body\<close> runs the hook. The \<open>assert(PyErr_Occurred())\<close> at
  the top is the caller's obligation; the entries made from \<open>hook_body\<close> meet it.
\<close>

function apsw_write_unraisable ::
    "nat \<Rightarrow> sys_module \<Rightarrow> hook option option \<Rightarrow> 'a pythread_scheme \<Rightarrow> 'a pythread_scheme"
  and call_hook ::
    "nat \<Rightarrow> sys_module \<Rightarrow> hook_kind \<Rightarrow> hook option \<Rightarrow> exception option \<Rightarrow> 'a pythread_scheme
     \<Rightarrow> bool \<times> 'a pythread_scheme"
  and hook_body ::
    "nat \<Rightarrow> sys_module \<Rightarrow> hook \<Rightarrow> 'a pythread_scheme \<Rightarrow> bool \<times> 'a pythread_scheme"
where
  "apsw_write_unraisable depth sys hookobject s =
     (let s1 = (if PYPY_VERSION sys then s else fold PyTraceBack_Here (py_frames s) s) in
      case PyErr_Fetch s1 of
        (fetched_exc, s2) \<Rightarrow>
          let exc = PyErr_NormalizeException sys fetched_exc in
          (case Py_EnterRecursiveCall depth sys s2 of
             (False, s3) \<Rightarrow> PyErr_Clear (PyErr_Print s3)
           | (True, s3) \<Rightarrow>
               (case get_hookobject_excepthook hookobject (tell_sqlite3_log exc s3) of
                  (h1, s4) \<Rightarrow>
                    (case call_hook (Suc depth) sys Hookobject_excepthook h1 exc s4 of
                       (True, s5) \<Rightarrow> PyErr_Clear s5
                     | (False, s5) \<Rightarrow>
                         (case get_sys_unraisablehook sys s5 of
                            (h2, s6) \<Rightarrow>
                              (case call_hook (Suc depth) sys Sys_unraisablehook h2 exc s6 of
                                 (True, s7) \<Rightarrow> PyErr_Clear s7
                               | (False, s7) \<Rightarrow>
                                   (case get_sys_excepthook sys s7 of
                                      (h3, s8) \<Rightarrow>
                                        (case call_hook (Suc depth) sys Sys_excepthook h3 exc s8 of
                                           (True, s9) \<Rightarrow> PyErr_Clear s9
                                         | (False, s9) \<Rightarrow>
                                             PyErr_Clear (PyErr_Display exc (PyErr_Clear s9))))))))))"
| "call_hook depth sys kind None args s = (False, s)"
| "call_hook depth sys kind (Some h) args s =
     (case hook_body depth sys h (s\<lparr>dlog := []\<rparr>) of
        (ok, s') \<Rightarrow> (ok, s'\<lparr>dlog := dlog s @ [Ev_hook kind args (pending s) (dlog s') ok]\<rparr>))"
| "hook_body depth sys Hook_returns s = (True, s)"
| "hook_body depth sys (Hook_raises e) s = (False, s\<lparr>pending := Some e\<rparr>)"
| "hook_body depth sys (Hook_unraisable e hookobject rest) s =
     hook_body depth sys rest (apsw_write_unraisable depth sys hookobject (s\<lparr>pending := Some e\<rparr>))"
  by pat_completeness auto
termination
  by (relation "inv_image (less_than <*lex*> less_than)
        (\<lambda>x. case x of
           Inl (depth, sys, hookobject, s) \<Rightarrow> (recursion_limit sys - depth, 0)
         | Inr (Inl (depth, sys, kind, h, args, s)) \<Rightarrow>
             (recursion_limit sys - depth, case h of None \<Rightarrow> 0 | Some h' \<Rightarrow> size h' + 2)
         | Inr (Inr (depth, sys, h, s)) \<Rightarrow> (recursion_limit sys - depth, size h + 1))")
     (auto simp: Py_EnterRecursiveCall_def split: if_splits)

section \<open>Value marshaller: notions used to state its properties\<close>

text \<open>The value's type tag is one of the four with a payload, the cases of the \<open>switch\<close> that are not \<open>default\<close>.\<close>

definition scalar_tag :: "sqlite3_value \<Rightarrow> bool" where
  "scalar_tag e = (sqlite3_value_type e \<in> {SQLITE_INTEGER, SQLITE_FLOAT, SQLITE_TEXT, SQLITE_BLOB})"

text \<open>The object an element converts to, with both modes disabled, when the host does not fail.\<close>

definition converted :: "sqlite3_value \<Rightarrow> pyobject" where
  "converted e = the (fst (convert_value_to_pyobject_not_in e \<lparr>faults = [], err = None, refs = 0, in_calls = []\<rparr>))"

text \<open>The next \<open>n\<close> fallible host calls succeed.\<close>

definition host_succeeds :: "nat \<Rightarrow> 'a hoststate_scheme \<Rightarrow> bool" where
  "host_succeeds n s = (\<forall>f \<in> set (take n (faults s)). f = None)"

text \<open>The engine's answers that hand out the elements \<open>es\<close> one by one.\<close>

definition ok_answers :: "sqlite3_value list \<Rightarrow> in_cursor" where
  "ok_answers es = map (\<lambda>e. (SQLITE_OK, Some e)) es"

text \<open>
  How many fallible host calls one loop iteration makes for an element: the constructor for a
  value with a payload, and \<open>PySet_Add\<close>.
\<close>

definition n_host_calls :: "sqlite3_value \<Rightarrow> nat" where
  "n_host_calls e = (if scalar_tag e then 2 else 1)"

definition total_host_calls :: "sqlite3_value list \<Rightarrow> nat" where
  "total_host_calls es = sum_list (map n_host_calls es)"

text \<open>The set that adding the objects \<open>xs\<close> in turn to the empty set gives.\<close>

definition py_set_of :: "pyobject list \<Rightarrow> pyobject list" where
  "py_set_of xs = foldl py_set_add [] xs"

text \<open>No two of the elements are equal.\<close>

fun py_distinct :: "pyobject list \<Rightarrow> bool" where
  "py_distinct [] = True"
| "py_distinct (x # xs) = (\<not> list_ex (py_equal x) xs \<and> py_distinct xs)"

text \<open>
  The host's \<open>==\<close> on two sets: they have as many elements, and each element of the first
  equals one of the second.
\<close>

definition py_set_equal :: "pyobject list \<Rightarrow> pyobject list \<Rightarrow> bool" where
  "py_set_equal a b = (length a = length b \<and> list_all (\<lambda>x. list_ex (py_equal x) b) a)"

text \<open>The rest of a loop iteration after \<open>Py_CLEAR(v)\<close>: asking the engine for the next element.\<close>

definition loop_next :: "in_cursor \<Rightarrow> pyobject list \<Rightarrow> 'a hoststate_scheme \<Rightarrow> pyobject option \<times> 'a hoststate_scheme" where
  "loop_next cur st s3 =
     (case sqlite3_vtab_in_next cur of
        (rc, in_value', cur') \<Rightarrow>
          let s4 = log_in_call (In_Next rc) s3 in
          if rc \<noteq> SQLITE_DONE \<and> rc \<noteq> SQLITE_OK then
            (None, Py_XDECREF (Some st) (Py_XDECREF (None :: pyobject option) (PyErr_Format PyExc_ValueError s4)))
          else in_constraint_loop cur' in_value' st s4)"

text \<open>
  The outcome \<open>r\<close> of a step from \<open>s\<close> is either an object, with \<open>k + 1\<close> more references
  owned and the error indicator as before, or NULL, with \<open>k\<close> more references owned and an
  exception set; in both cases the record extension is as before.
\<close>

definition new_reference_or_null ::
    "int \<Rightarrow> 'a hoststate_scheme \<Rightarrow> pyobject option \<times> 'a hoststate_scheme \<Rightarrow> bool" where
  "new_reference_or_null k s r =
     (hoststate.more (snd r) = hoststate.more s \<and>
      (case fst r of
         None \<Rightarrow> refs (snd r) = refs s + k \<and> err (snd r) \<noteq> None
       | Some obj \<Rightarrow> refs (snd r) = refs s + k + 1 \<and> err (snd r) = err s))"

section \<open>Unraisable exception dispatcher: notions used to state its properties\<close>

text \<open>The place of a step in the protocol.\<close>

fun step_rank :: "devent \<Rightarrow> nat" where
  "step_rank (Ev_traceback_here f) = 0"
| "step_rank (Ev_sqlite3_log c t m) = 1"
| "step_rank (Ev_hook Hookobject_excepthook a p sub ok) = 2"
| "step_rank (Ev_hook Sys_unraisablehook a p sub ok) = 3"
| "step_rank (Ev_hook Sys_excepthook a p sub ok) = 4"
| "step_rank (Ev_display a p) = 5"
| "step_rank (Ev_print p) = 5"


fun hook_succeeded :: "devent \<Rightarrow> bool" where
  "hook_succeeded (Ev_hook k a p sub ok) = ok"
| "hook_succeeded _ = False"


text \<open>A hook or the display was entered with the error indicator clear.\<close>

fun entered_clear :: "devent \<Rightarrow> bool" where
  "entered_clear (Ev_hook k a p sub ok) = (p = None)"
| "entered_clear (Ev_display a p) = (p = None)"
| "entered_clear _ = True"

fun is_display :: "devent \<Rightarrow> bool" where
  "is_display (Ev_display a p) = True"
| "is_display (Ev_print p) = True"
| "is_display _ = False"

text \<open>The events a step from \<open>s\<close> to \<open>s'\<close> added.\<close>

definition new_dlog :: "'a pythread_scheme \<Rightarrow> 'a pythread_scheme \<Rightarrow> devent list" where
  "new_dlog s s' = drop (length (dlog s)) (dlog s')"

fun kind_rank :: "hook_kind \<Rightarrow> nat" where
  "kind_rank Hookobject_excepthook = 2"
| "kind_rank Sys_unraisablehook = 3"
| "kind_rank Sys_excepthook = 4"

text \<open>What \<open>PyErr_Fetch\<close> yields in the dispatcher: the pending exception after traceback completion.\<close>

definition fetched :: "sys_module \<Rightarrow> 'a pythread_scheme \<Rightarrow> exception option" where
  "fetched sys s = pending (if PYPY_VERSION sys then s else fold PyTraceBack_Here (py_frames s) s)"

text \<open>The exception the dispatcher works with: what \<open>PyErr_Fetch\<close> yielded, normalised.\<close>

definition dispatched :: "sys_module \<Rightarrow> 'a pythread_scheme \<Rightarrow> exception option" where
  "dispatched sys s = PyErr_NormalizeException sys (fetched sys s)"

text \<open>The exception a hook or the display was given is \<open>x\<close>.\<close>

fun carries :: "exception option \<Rightarrow> devent \<Rightarrow> bool" where
  "carries x (Ev_hook k a p sub ok) = (a = x)"
| "carries x (Ev_display a p) = (a = x)"
| "carries x _ = True"

text \<open>How deep hook calls nest inside a step.\<close>

fun max_list :: "nat list \<Rightarrow> nat" where
  "max_list [] = 0"
| "max_list (x # xs) = max x (max_list xs)"

fun nesting :: "devent \<Rightarrow> nat" where
  "nesting (Ev_hook k a p sub ok) = Suc (max_list (map nesting sub))"
| "nesting _ = 0"

text \<open>The steps of traceback completion: one per frame, none on PyPy.\<close>

definition traceback_steps :: "sys_module \<Rightarrow> 'a pythread_scheme \<Rightarrow> devent list" where
  "traceback_steps sys s = (if PYPY_VERSION sys then [] else map Ev_traceback_here (py_frames s))"

text \<open>A step from \<open>s\<close> to \<open>s'\<close> only added events, none nesting deeper than \<open>k\<close>.\<close>

definition bounded_log :: "nat \<Rightarrow> 'a pythread_scheme \<Rightarrow> 'a pythread_scheme \<Rightarrow> bool" where
  "bounded_log k s s' = (\<exists>evs. dlog s' = dlog s @ evs \<and> (\<forall>e \<in> set evs. nesting e \<le> k))"

text \<open>
  Every dispatcher invocation made while this hook ran did nothing but complete the traceback
  and display.
\<close>

fun is_traceback_step :: "devent \<Rightarrow> bool" where
  "is_traceback_step (Ev_traceback_here f) = True"
| "is_traceback_step _ = False"

fun reentrant_only_displays :: "devent \<Rightarrow> bool" where
  "reentrant_only_displays (Ev_hook k a p sub ok) = list_all (\<lambda>e. is_display e \<or> is_traceback_step e) sub"
| "reentrant_only_displays _ = True"

text \<open>
  The protocol, step by step. The mirror to the engine's log: one entry, with the type name of
  the exception's value and the value's text, or the fixed text when the host cannot give one.
\<close>

definition native_log :: "exception option \<Rightarrow> devent list" where
  "native_log exc =
     (case exc of
        None \<Rightarrow> []
      | Some e \<Rightarrow>
          (case err_value e of
             None \<Rightarrow> []
           | Some v \<Rightarrow>
               [Ev_sqlite3_log SQLITE_ERROR (Py_TypeName v)
                  (case str_utf8 v of
                     None \<Rightarrow> Some ''failed to get string of error''
                   | Some utf8 \<Rightarrow> utf8)]))"

text \<open>
  The hooks there are to call, in the order of the protocol: the call-site object's
  \<open>excepthook\<close> when there is an object and it has one, \<open>sys.unraisablehook\<close> when it is set
  and the record to hand to it can be made, and \<open>sys.excepthook\<close> when it is set.
\<close>

definition registered :: "sys_module \<Rightarrow> hook option option \<Rightarrow> (hook_kind \<times> hook) list" where
  "registered sys hookobject =
     (case hookobject of
        Some (Some h) \<Rightarrow> [(Hookobject_excepthook, h)]
      | _ \<Rightarrow> [])
     @ (case unraisablehook sys of
          Some h \<Rightarrow> if struct_new_ok sys then [(Sys_unraisablehook, h)] else []
        | None \<Rightarrow> [])
     @ (case excepthook sys of
          Some h \<Rightarrow> [(Sys_excepthook, h)]
        | None \<Rightarrow> [])"

text \<open>
  The step of calling a hook at recursion depth \<open>d\<close> in the thread \<open>s\<close>: the hook is given
  \<open>exc\<close> and is entered with the error indicator clear; the step records the events of the
  dispatcher invocations made while the hook ran and whether the hook returned a result.
\<close>

definition hook_step ::
    "nat \<Rightarrow> sys_module \<Rightarrow> 'a pythread_scheme \<Rightarrow> exception option \<Rightarrow> hook_kind \<times> hook \<Rightarrow> devent" where
  "hook_step d sys s exc kh =
     (case hook_body d sys (snd kh) (s\<lparr>pending := None, dlog := []\<rparr>) of
        (ok, s') \<Rightarrow> Ev_hook (fst kh) exc None (dlog s') ok)"

text \<open>
  Stop at the first success, go on after a failure, display as the last resort: of the hook
  steps \<open>es\<close>, in order, those up to and including the first that succeeded are taken; when
  none succeeded all are taken and the display follows.
\<close>

fun first_success :: "devent list \<Rightarrow> devent \<Rightarrow> devent list" where
  "first_success [] display = [display]"
| "first_success (e # es) display = (if hook_succeeded e then [e] else e # first_success es display)"

text \<open>The steps of an invocation after traceback completion, when the recursion guard lets it run.\<close>

definition protocol_steps ::
    "nat \<Rightarrow> sys_module \<Rightarrow> hook option option \<Rightarrow> 'a pythread_scheme \<Rightarrow> devent list" where
  "protocol_steps depth sys hookobject s =
     native_log (dispatched sys s)
     @ first_success (map (hook_step (Suc depth) sys s (dispatched sys s)) (registered sys hookobject))
         (Ev_display (dispatched sys s) None)"

text \<open>
  A host for the examples: normalising leaves an exception that has a value as it is and gives
  one whose value is NULL the instance \<open>fresh\<close>.
\<close>

definition instance_kept :: "exc_value \<Rightarrow> exception \<Rightarrow> exc_type \<times> exc_value \<times> frame list" where
  "instance_kept fresh e = (err_type e, (case err_value e of Some v \<Rightarrow> v | None \<Rightarrow> fresh), err_traceback e)"

section \<open>Value marshaller: proofs\<close>

declare convert_value_to_pyobject.simps [simp del] in_constraint_loop.simps [simp del]

lemma host_call_succeeds:
  "host_succeeds (Suc 0) s \<Longrightarrow> host_call s = (True, s\<lparr>faults := drop (Suc 0) (faults s)\<rparr>)"
  by (cases "faults s") (auto simp: host_call_def host_succeeds_def)

lemma host_succeeds_drop:
  assumes "host_succeeds (m + n) s"
  shows "host_succeeds n (s\<lparr>faults := drop m (faults s)\<rparr>)"
proof -
  have "take n (drop m (faults s)) = drop m (take (m + n) (faults s))"
    by (simp add: drop_take)
  then have "set (take n (drop m (faults s))) \<subseteq> set (take (m + n) (faults s))"
    by (simp add: set_drop_subset)
  with assms show ?thesis
    by (auto simp: host_succeeds_def)
qed

lemma host_succeeds_mono:
  assumes "host_succeeds (m + n) s"
  shows "host_succeeds m s"
proof -
  have "take m (faults s) = take m (take (m + n) (faults s))"
    by simp
  then have "set (take m (faults s)) \<subseteq> set (take (m + n) (faults s))"
    by (metis set_take_subset)
  with assms show ?thesis
    by (auto simp: host_succeeds_def)
qed

lemma hoststate_update_order [simp]:
  "s\<lparr>err := e, faults := f\<rparr> = s\<lparr>faults := f, err := e\<rparr>"
  "s\<lparr>refs := r, faults := f\<rparr> = s\<lparr>faults := f, refs := r\<rparr>"
  "s\<lparr>in_calls := c, faults := f\<rparr> = s\<lparr>faults := f, in_calls := c\<rparr>"
  "s\<lparr>refs := r, err := e\<rparr> = s\<lparr>err := e, refs := r\<rparr>"
  "s\<lparr>in_calls := c, err := e\<rparr> = s\<lparr>err := e, in_calls := c\<rparr>"
  "s\<lparr>in_calls := c, refs := r\<rparr> = s\<lparr>refs := r, in_calls := c\<rparr>"
  by simp_all

lemma host_succeeds_upd [simp]:
  "host_succeeds n (s\<lparr>refs := r\<rparr>) = host_succeeds n s"
  "host_succeeds n (s\<lparr>err := e\<rparr>) = host_succeeds n s"
  "host_succeeds n (s\<lparr>in_calls := c\<rparr>) = host_succeeds n s"
  by (simp_all add: host_succeeds_def)

lemma converted_eq:
  "converted v =
     (if sqlite3_value_type v = SQLITE_INTEGER then PyLong (sint (sqlite3_value_int64 v))
      else if sqlite3_value_type v = SQLITE_FLOAT then PyFloat (sqlite3_value_double v)
      else if sqlite3_value_type v = SQLITE_TEXT then PyUnicode (take (sqlite3_value_bytes v) (sqlite3_value_text v))
      else if sqlite3_value_type v = SQLITE_BLOB then PyBytes (take (sqlite3_value_bytes v) (sqlite3_value_blob v))
      else Py_None)"
  by (simp add: converted_def convert_value_to_pyobject_not_in_def convert_value_to_pyobject.simps Let_def
      PyLong_FromLongLong_def PyFloat_FromDouble_def PyUnicode_FromStringAndSize_def PyBytes_FromStringAndSize_def
      host_new_def host_call_def Py_RETURN_NONE_def Py_NewRef_def)

lemma hashable_converted [simp]: "hashable (converted e)"
  by (simp add: converted_eq)

lemma convert_scalar:
  "convert_value_to_pyobject e False False s =
     (if scalar_tag e then
        (case host_call s of
           (True, s') \<Rightarrow> (Some (converted e), s'\<lparr>refs := refs s' + 1\<rparr>)
         | (False, s') \<Rightarrow> (None, s'))
      else (Some Py_None, s\<lparr>refs := refs s + 1\<rparr>))"
  by (auto simp: convert_value_to_pyobject.simps scalar_tag_def converted_def convert_value_to_pyobject_not_in_def
      PyLong_FromLongLong_def PyFloat_FromDouble_def PyUnicode_FromStringAndSize_def PyBytes_FromStringAndSize_def
      Py_RETURN_NONE_def Py_NewRef_def host_new_def host_call_def split: list.splits option.splits)

lemma converted_null: "\<not> scalar_tag e \<Longrightarrow> converted e = Py_None"
  by (simp add: converted_def convert_value_to_pyobject_not_in_def convert_scalar)

lemma loop_step:
  "in_constraint_loop cur (Some e) st s =
     (case convert_value_to_pyobject e False False s of
        (None, s1) \<Rightarrow> (None, s1\<lparr>refs := refs s1 - 1\<rparr>)
      | (Some v, s1) \<Rightarrow>
          (case PySet_Add st v s1 of
             (None, s2) \<Rightarrow> (None, s2\<lparr>refs := refs s2 - 2\<rparr>)
           | (Some st', s2) \<Rightarrow> loop_next cur st' (s2\<lparr>refs := refs s2 - 1\<rparr>)))"
  by (simp add: in_constraint_loop.simps [of cur "Some e"] loop_next_def Py_XDECREF_def Py_CLEAR_def
      split: prod.splits option.splits)

lemma loop_element_ok:
  assumes "host_succeeds (n_host_calls e) s"
  shows "in_constraint_loop cur (Some e) st s =
         loop_next cur (py_set_add st (converted e)) (s\<lparr>faults := drop (n_host_calls e) (faults s)\<rparr>)"
proof (cases "scalar_tag e")
  case True
  with assms have h2: "host_succeeds (Suc 0 + Suc 0) s"
    by (simp add: n_host_calls_def numeral_2_eq_2)
  note a = host_succeeds_mono [OF h2] and b = host_succeeds_drop [OF h2]
  show ?thesis
    using True a b
    by (simp add: loop_step convert_scalar host_call_succeeds PySet_Add_def n_host_calls_def numeral_2_eq_2)
next
  case False
  with assms have h1: "host_succeeds (Suc 0) s"
    by (simp add: n_host_calls_def)
  show ?thesis
    using False h1
    by (simp add: loop_step convert_scalar PySet_Add_def host_call_succeeds n_host_calls_def
        converted_null)
qed

lemma loop_prefix_ok:
  assumes "host_succeeds (total_host_calls (e # es)) s"
  shows "in_constraint_loop (ok_answers es @ tail) (Some e) st s =
         loop_next tail (foldl py_set_add st (map converted (e # es)))
           (s\<lparr>faults := drop (total_host_calls (e # es)) (faults s),
              in_calls := in_calls s @ replicate (length es) (In_Next SQLITE_OK)\<rparr>)"
  using assms
proof (induction es arbitrary: e st s)
  case Nil
  then show ?case by (simp add: loop_element_ok ok_answers_def total_host_calls_def)
next
  case (Cons x xs)
  have he: "host_succeeds (n_host_calls e) s"
    using Cons.prems host_succeeds_mono [of "n_host_calls e" "total_host_calls (x # xs)" s]
    by (simp add: total_host_calls_def)
  let ?s0 = "s\<lparr>faults := drop (n_host_calls e) (faults s)\<rparr>"
  let ?s1 = "log_in_call (In_Next SQLITE_OK) ?s0"
  have hx: "host_succeeds (total_host_calls (x # xs)) ?s1"
    using host_succeeds_drop [of "n_host_calls e" "total_host_calls (x # xs)" s] Cons.prems
    by (simp add: total_host_calls_def host_succeeds_def log_in_call_def)
  have "in_constraint_loop (ok_answers (x # xs) @ tail) (Some e) st s =
        in_constraint_loop (ok_answers xs @ tail) (Some x) (py_set_add st (converted e)) ?s1"
    by (simp add: loop_element_ok [OF he] loop_next_def sqlite3_vtab_in_next_def ok_answers_def)
  also have "\<dots> = loop_next tail (foldl py_set_add (py_set_add st (converted e)) (map converted (x # xs)))
           (?s1\<lparr>faults := drop (total_host_calls (x # xs)) (faults ?s1),
                in_calls := in_calls ?s1 @ replicate (length xs) (In_Next SQLITE_OK)\<rparr>)"
    by (rule Cons.IH [OF hx])
  finally show ?case
    by (simp add: log_in_call_def replicate_append_same total_host_calls_def add.commute)
qed

lemma convert_nochange:
  "no_change_possible \<Longrightarrow> sqlite3_value_nochange v \<Longrightarrow>
   convert_value_to_pyobject v in_constraint_possible no_change_possible s =
   (Some apsw_no_change_object, s\<lparr>refs := refs s + 1\<rparr>)"
  by (simp add: convert_value_to_pyobject.simps Py_NewRef_def)

lemma convert_scalar_tag:
  "\<not> (no_change_possible \<and> sqlite3_value_nochange v) \<Longrightarrow> scalar_tag v \<Longrightarrow>
   convert_value_to_pyobject v in_constraint_possible no_change_possible s = host_new (converted v) s"
  by (auto simp: convert_value_to_pyobject.simps scalar_tag_def converted_eq Let_def
      PyLong_FromLongLong_def PyFloat_FromDouble_def PyUnicode_FromStringAndSize_def PyBytes_FromStringAndSize_def)

lemma convert_null_plain:
  "\<not> (no_change_possible \<and> sqlite3_value_nochange v) \<Longrightarrow> \<not> scalar_tag v \<Longrightarrow>
   convert_value_to_pyobject v False no_change_possible s = (Some Py_None, s\<lparr>refs := refs s + 1\<rparr>)"
  by (auto simp: convert_value_to_pyobject.simps scalar_tag_def Py_RETURN_NONE_def Py_NewRef_def)

lemma convert_null_in:
  "\<not> (no_change_possible \<and> sqlite3_value_nochange v) \<Longrightarrow> \<not> scalar_tag v \<Longrightarrow>
   convert_value_to_pyobject v True no_change_possible s =
     (case sqlite3_vtab_in_first v of
        (rc, in_value, cur) \<Rightarrow>
          if rc = SQLITE_OK then
            (case host_call (s\<lparr>in_calls := in_calls s @ [In_First rc]\<rparr>) of
               (True, s1) \<Rightarrow> in_constraint_loop cur in_value [] (s1\<lparr>refs := refs s1 + 1\<rparr>)
             | (False, s1) \<Rightarrow> (None, s1))
          else (Some Py_None, s\<lparr>refs := refs s + 1, in_calls := in_calls s @ [In_First rc]\<rparr>))"
  by (auto simp: convert_value_to_pyobject.simps scalar_tag_def Py_RETURN_NONE_def Py_NewRef_def
      PySet_New_def log_in_call_def split: prod.splits bool.splits)

lemma host_call_frame:
  "host_call s = (b, s') \<Longrightarrow>
     refs s' = refs s \<and> in_calls s' = in_calls s \<and> hoststate.more s' = hoststate.more s \<and>
     (if b then err s' = err s else err s' \<noteq> None)"
  by (auto simp: host_call_def split: list.splits option.splits)

lemma new_reference_or_null_host_new: "new_reference_or_null 0 s (host_new obj s)"
  by (auto simp: new_reference_or_null_def host_new_def split: prod.splits bool.splits dest!: host_call_frame)

lemma new_reference_or_null_log:
  "new_reference_or_null k (s\<lparr>in_calls := c\<rparr>) r = new_reference_or_null k s r"
  by (simp add: new_reference_or_null_def split: option.splits)

lemma loop_next_outcome:
  assumes "\<And>res iv cur'. sqlite3_vtab_in_next cur = (res, iv, cur') \<Longrightarrow>
             \<not> (res \<noteq> SQLITE_DONE \<and> res \<noteq> SQLITE_OK) \<Longrightarrow>
             new_reference_or_null (- 1) (s\<lparr>in_calls := in_calls s @ [In_Next res]\<rparr>)
               (in_constraint_loop cur' iv st (s\<lparr>in_calls := in_calls s @ [In_Next res]\<rparr>))"
  shows "new_reference_or_null (- 1) s (loop_next cur st s)"
proof -
  obtain res iv cur' where n: "sqlite3_vtab_in_next cur = (res, iv, cur')"
    by (cases "sqlite3_vtab_in_next cur") auto
  show ?thesis
  proof (cases "res \<noteq> SQLITE_DONE \<and> res \<noteq> SQLITE_OK")
    case True
    then show ?thesis
      by (simp add: loop_next_def n Let_def new_reference_or_null_def log_in_call_def Py_XDECREF_def
          PyErr_Format_def)
  next
    case False
    then have "loop_next cur st s =
        in_constraint_loop cur' iv st (s\<lparr>in_calls := in_calls s @ [In_Next res]\<rparr>)"
      by (auto simp: loop_next_def n Let_def log_in_call_def)
    with assms [OF n False] show ?thesis
      by (simp add: new_reference_or_null_log)
  qed
qed

lemma loop_exit: "in_constraint_loop cur None st s = (Some (PySet st), s)"
  by (simp add: in_constraint_loop.simps)

lemma scalar_outcome: "new_reference_or_null 0 s (convert_value_to_pyobject e False False s)"
proof (cases "scalar_tag e")
  case True
  then show ?thesis
    by (simp add: convert_scalar_tag new_reference_or_null_host_new)
next
  case False
  then show ?thesis
    by (simp add: convert_null_plain new_reference_or_null_def)
qed

lemma loop_body_outcome:
  assumes nxt: "\<And>(s' :: 'a hoststate_scheme) st'. new_reference_or_null (- 1) s' (loop_next cur st' s')"
  shows "new_reference_or_null (- 1) (s :: 'a hoststate_scheme) (in_constraint_loop cur (Some e) st s)"
proof -
  obtain v s1 where c: "convert_value_to_pyobject e False False s = (v, s1)"
    by (cases "convert_value_to_pyobject e False False s") auto
  have o1: "new_reference_or_null 0 s (v, s1)"
    using scalar_outcome [of s e] by (simp add: c)
  show ?thesis
  proof (cases v)
    case None
    with o1 show ?thesis
      by (simp add: loop_step c new_reference_or_null_def)
  next
    case (Some obj)
    obtain b s2 where h: "host_call s1 = (b, s2)"
      by (cases "host_call s1") auto
    note f = host_call_frame [OF h]
    show ?thesis
    proof (cases "hashable obj")
      case False
      with o1 show ?thesis
        by (auto simp: loop_step c Some PySet_Add_def new_reference_or_null_def)
    next
      case hashable: True
      show ?thesis
      proof (cases b)
        case True
        have "new_reference_or_null (- 1) (s2\<lparr>refs := refs s2 - 1\<rparr>)
                (loop_next cur (py_set_add st obj) (s2\<lparr>refs := refs s2 - 1\<rparr>))"
          by (rule nxt)
        with o1 f True hashable show ?thesis
          by (auto simp: loop_step c Some PySet_Add_def h new_reference_or_null_def split: option.splits)
      next
        case False
        with o1 f hashable show ?thesis
          by (auto simp: loop_step c Some PySet_Add_def h new_reference_or_null_def)
      qed
    qed
  qed
qed

lemma loop_outcome: "new_reference_or_null (- 1) s (in_constraint_loop cur iv st s)"
proof (induction cur arbitrary: iv st s)
  case Nil
  show ?case
  proof (cases iv)
    case None
    then show ?thesis by (simp add: loop_exit new_reference_or_null_def)
  next
    case (Some e)
    have "new_reference_or_null (- 1) s' (loop_next [] st' s')" for s' :: "'a hoststate_scheme" and st'
      by (rule loop_next_outcome)
         (simp add: sqlite3_vtab_in_next_def loop_exit new_reference_or_null_def)
    then show ?thesis
      unfolding Some by (rule loop_body_outcome)
  qed
next
  case (Cons a cur)
  show ?case
  proof (cases iv)
    case None
    then show ?thesis by (simp add: loop_exit new_reference_or_null_def)
  next
    case (Some e)
    have "new_reference_or_null (- 1) s' (loop_next (a # cur) st' s')" for s' :: "'a hoststate_scheme" and st'
      by (rule loop_next_outcome) (auto simp: sqlite3_vtab_in_next_def Cons.IH split: prod.splits)
    then show ?thesis
      unfolding Some by (rule loop_body_outcome)
  qed
qed

lemma convert_outcome: "new_reference_or_null 0 s (convert_value_to_pyobject v icp ncp s)"
proof (cases "ncp \<and> sqlite3_value_nochange v")
  case True
  then show ?thesis
    by (simp add: convert_nochange new_reference_or_null_def)
next
  case nc: False
  show ?thesis
  proof (cases "scalar_tag v")
    case True
    with nc show ?thesis
      by (simp add: convert_scalar_tag new_reference_or_null_host_new)
  next
    case st: False
    show ?thesis
    proof (cases icp)
      case False
      with nc st show ?thesis
        by (simp add: convert_null_plain new_reference_or_null_def)
    next
      case True
      obtain rc iv cur where i: "sqlite3_vtab_in_first v = (rc, iv, cur)"
        by (cases "sqlite3_vtab_in_first v") auto
      show ?thesis
      proof (cases "rc = SQLITE_OK")
        case False
        with nc st True show ?thesis
          by (simp add: convert_null_in i new_reference_or_null_def)
      next
        case ok: True
        let ?s0 = "s\<lparr>in_calls := in_calls s @ [In_First SQLITE_OK]\<rparr>"
        obtain b s1 where h: "host_call ?s0 = (b, s1)"
          by (cases "host_call ?s0") auto
        note f = host_call_frame [OF h]
        show ?thesis
        proof (cases b)
          case False
          with nc st True ok f show ?thesis
            by (simp add: convert_null_in i h new_reference_or_null_def)
        next
          case b: True
          have l: "new_reference_or_null (- 1) (s1\<lparr>refs := refs s1 + 1\<rparr>)
                     (in_constraint_loop cur iv [] (s1\<lparr>refs := refs s1 + 1\<rparr>))"
            by (rule loop_outcome)
          have "convert_value_to_pyobject v icp ncp s =
                in_constraint_loop cur iv [] (s1\<lparr>refs := refs s1 + 1\<rparr>)"
            using nc st True ok b by (simp add: convert_null_in i h)
          with l f b show ?thesis
            by (auto simp: new_reference_or_null_def split: option.splits)
        qed
      qed
    qed
  qed
qed

lemma convert_in_start:
  assumes "\<not> scalar_tag v" "\<not> (ncp \<and> sqlite3_value_nochange v)"
    and "vtab_in v = (SQLITE_OK, iv) # cur" "host_succeeds (Suc 0) s"
  shows "convert_value_to_pyobject v True ncp s =
         in_constraint_loop cur iv []
           (s\<lparr>faults := drop (Suc 0) (faults s), refs := refs s + 1,
              in_calls := in_calls s @ [In_First SQLITE_OK]\<rparr>)"
  using assms
  by (simp add: convert_null_in sqlite3_vtab_in_first_def host_call_succeeds)

lemma loop_next_done:
  "loop_next ((SQLITE_DONE, None) # rest) st s =
   (Some (PySet st), s\<lparr>in_calls := in_calls s @ [In_Next SQLITE_DONE]\<rparr>)"
  by (simp add: loop_next_def sqlite3_vtab_in_next_def loop_exit log_in_call_def)

lemma loop_next_ok:
  "loop_next ((SQLITE_OK, iv) # rest) st s =
   in_constraint_loop rest iv st (s\<lparr>in_calls := in_calls s @ [In_Next SQLITE_OK]\<rparr>)"
  by (simp add: loop_next_def sqlite3_vtab_in_next_def log_in_call_def)

lemma loop_next_failed:
  "rc \<noteq> SQLITE_OK \<Longrightarrow> rc \<noteq> SQLITE_DONE \<Longrightarrow>
   loop_next ((rc, p) # rest) st s =
   (None, s\<lparr>err := Some PyExc_ValueError, refs := refs s - 1, in_calls := in_calls s @ [In_Next rc]\<rparr>)"
  by (simp add: loop_next_def sqlite3_vtab_in_next_def log_in_call_def Py_XDECREF_def PyErr_Format_def)

lemma loop_element_fails:
  assumes "scalar_tag e" "faults s = Some ex # fs"
  shows "in_constraint_loop cur (Some e) st s =
         (None, s\<lparr>faults := fs, err := Some ex, refs := refs s - 1\<rparr>)"
  using assms by (simp add: loop_step convert_scalar host_call_def)

lemma expansion_ok:
  assumes null: "\<not> scalar_tag v" and nc: "\<not> (ncp \<and> sqlite3_value_nochange v)"
    and head: "vtab_in v = ok_answers es @ [(SQLITE_DONE, None)]" and ne: "es \<noteq> []"
    and host: "host_succeeds (1 + total_host_calls es) s"
  shows "convert_value_to_pyobject v True ncp s =
           (Some (PySet (py_set_of (map converted es))),
            s\<lparr>faults := drop (1 + total_host_calls es) (faults s), refs := refs s + 1,
              in_calls := in_calls s @ In_First SQLITE_OK # replicate (length es - 1) (In_Next SQLITE_OK)
                            @ [In_Next SQLITE_DONE]\<rparr>)"
proof -
  from ne obtain x xs where es: "es = x # xs" by (cases es) auto
  let ?s1 = "s\<lparr>faults := drop (Suc 0) (faults s), refs := refs s + 1,
              in_calls := in_calls s @ [In_First SQLITE_OK]\<rparr>"
  have h0: "host_succeeds (Suc 0) s"
    using host host_succeeds_mono [of "Suc 0" "total_host_calls es" s] by simp
  have h1: "host_succeeds (total_host_calls (x # xs)) ?s1"
    using host host_succeeds_drop [of "Suc 0" "total_host_calls es" s] by (simp add: es host_succeeds_def)
  have "convert_value_to_pyobject v True ncp s =
        in_constraint_loop (ok_answers xs @ [(SQLITE_DONE, None)]) (Some x) [] ?s1"
    using head by (intro convert_in_start [OF null nc _ h0]) (simp add: es ok_answers_def)
  then show ?thesis
    by (simp add: loop_prefix_ok [OF h1] loop_next_done es py_set_of_def)
qed

lemma loop_prefix_then:
  assumes "host_succeeds (total_host_calls es) s"
  shows "in_constraint_loop (tl (ok_answers es @ (SQLITE_OK, Some e) # rest)) (snd (hd (ok_answers es @ [(SQLITE_OK, Some e)]))) st s =
         in_constraint_loop rest (Some e) (foldl py_set_add st (map converted es))
           (s\<lparr>faults := drop (total_host_calls es) (faults s),
              in_calls := in_calls s @ replicate (length es) (In_Next SQLITE_OK)\<rparr>)"
proof (cases es)
  case Nil
  then show ?thesis by (simp add: ok_answers_def total_host_calls_def)
next
  case (Cons x xs)
  have "in_constraint_loop (ok_answers xs @ (SQLITE_OK, Some e) # rest) (Some x) st s =
        loop_next ((SQLITE_OK, Some e) # rest) (foldl py_set_add st (map converted (x # xs)))
           (s\<lparr>faults := drop (total_host_calls (x # xs)) (faults s),
              in_calls := in_calls s @ replicate (length xs) (In_Next SQLITE_OK)\<rparr>)"
    using assms unfolding Cons by (rule loop_prefix_ok)
  then show ?thesis
    by (simp add: Cons ok_answers_def loop_next_ok replicate_append_same)
qed

lemma expansion_element_fails:
  assumes null: "\<not> scalar_tag v" and nc: "\<not> (ncp \<and> sqlite3_value_nochange v)"
    and head: "vtab_in v = ok_answers pre @ (SQLITE_OK, Some e) # rest"
    and e: "scalar_tag e"
    and host: "faults s = replicate (1 + total_host_calls pre) None @ Some ex # fs"
  shows "convert_value_to_pyobject v True ncp s =
           (None, s\<lparr>faults := fs, err := Some ex,
                      in_calls := in_calls s @ In_First SQLITE_OK # replicate (length pre) (In_Next SQLITE_OK)\<rparr>)"
proof -
  let ?s1 = "s\<lparr>faults := drop (Suc 0) (faults s), refs := refs s + 1,
              in_calls := in_calls s @ [In_First SQLITE_OK]\<rparr>"
  have h0: "host_succeeds (Suc 0) s"
    using host by (simp add: host_succeeds_def)
  have h1: "host_succeeds (total_host_calls pre) ?s1"
    using host by (simp add: host_succeeds_def)
  have v: "vtab_in v = (SQLITE_OK, snd (hd (ok_answers pre @ [(SQLITE_OK, Some e)])))
                         # tl (ok_answers pre @ (SQLITE_OK, Some e) # rest)"
    using head by (cases pre) (simp_all add: ok_answers_def)
  let ?s2 = "?s1\<lparr>faults := drop (total_host_calls pre) (faults ?s1),
              in_calls := in_calls ?s1 @ replicate (length pre) (In_Next SQLITE_OK)\<rparr>"
  have f2: "faults ?s2 = Some ex # fs"
    using host by simp
  have "convert_value_to_pyobject v True ncp s =
        in_constraint_loop (tl (ok_answers pre @ (SQLITE_OK, Some e) # rest))
          (snd (hd (ok_answers pre @ [(SQLITE_OK, Some e)]))) [] ?s1"
    by (rule convert_in_start [OF null nc v h0])
  also have "\<dots> = in_constraint_loop rest (Some e) (foldl py_set_add [] (map converted pre)) ?s2"
    by (rule loop_prefix_then [OF h1])
  also have "\<dots> = (None, ?s2\<lparr>faults := fs, err := Some ex, refs := refs ?s2 - 1\<rparr>)"
    by (rule loop_element_fails [OF e f2])
  finally show ?thesis
    by simp
qed

lemma expansion_next_fails:
  assumes null: "\<not> scalar_tag v" and nc: "\<not> (ncp \<and> sqlite3_value_nochange v)"
    and head: "vtab_in v = ok_answers es @ (rc, p) # rest" and ne: "es \<noteq> []"
    and rc: "rc \<noteq> SQLITE_OK" "rc \<noteq> SQLITE_DONE"
    and host: "host_succeeds (1 + total_host_calls es) s"
  shows "convert_value_to_pyobject v True ncp s =
           (None, s\<lparr>faults := drop (1 + total_host_calls es) (faults s), err := Some PyExc_ValueError,
                      in_calls := in_calls s @ In_First SQLITE_OK # replicate (length es - 1) (In_Next SQLITE_OK)
                                    @ [In_Next rc]\<rparr>)"
proof -
  from ne obtain x xs where es: "es = x # xs" by (cases es) auto
  let ?s1 = "s\<lparr>faults := drop (Suc 0) (faults s), refs := refs s + 1,
              in_calls := in_calls s @ [In_First SQLITE_OK]\<rparr>"
  have h0: "host_succeeds (Suc 0) s"
    using host host_succeeds_mono [of "Suc 0" "total_host_calls es" s] by simp
  have h1: "host_succeeds (total_host_calls (x # xs)) ?s1"
    using host host_succeeds_drop [of "Suc 0" "total_host_calls es" s] by (simp add: es host_succeeds_def)
  have "convert_value_to_pyobject v True ncp s =
        in_constraint_loop (ok_answers xs @ (rc, p) # rest) (Some x) [] ?s1"
    using head by (intro convert_in_start [OF null nc _ h0]) (simp add: es ok_answers_def)
  then show ?thesis
    using rc by (simp add: loop_prefix_ok [OF h1] loop_next_failed es)
qed

subsection \<open>Sets under the host's equality\<close>

lemma py_equal_sym: "py_equal x y \<Longrightarrow> py_equal y x"
  by (metis py_equal_def)

lemma py_equal_trans: "py_equal x y \<Longrightarrow> py_equal y z \<Longrightarrow> py_equal x z"
  by (metis py_equal_def)

lemma fold_add_mono: "set st \<subseteq> set (foldl py_set_add st xs)"
proof (induction xs arbitrary: st)
  case Nil
  show ?case by simp
next
  case (Cons a xs)
  have "set st \<subseteq> set (py_set_add st a)"
    by (auto simp: py_set_add_def)
  with Cons [of "py_set_add st a"] show ?case
    by auto
qed

lemma fold_add_members: "set (foldl py_set_add st xs) \<subseteq> set st \<union> set xs"
proof (induction xs arbitrary: st)
  case Nil
  show ?case by simp
next
  case (Cons a xs)
  have "set (py_set_add st a) \<subseteq> set st \<union> {a}"
    by (auto simp: py_set_add_def)
  with Cons [of "py_set_add st a"] show ?case
    by auto
qed

lemma fold_add_holds:
  "x \<in> set st \<union> set xs \<Longrightarrow> \<exists>y \<in> set (foldl py_set_add st xs). y = x \<or> py_equal y x"
proof (induction xs arbitrary: st)
  case Nil
  then show ?case by auto
next
  case (Cons a xs)
  have m: "set (py_set_add st a) \<subseteq> set (foldl py_set_add st (a # xs))"
    using fold_add_mono [of "py_set_add st a" xs] by simp
  consider "x \<in> set st" | "x = a" | "x \<in> set xs"
    using Cons.prems by auto
  then show ?case
  proof cases
    case 1
    then have "x \<in> set (py_set_add st a)"
      by (simp add: py_set_add_def)
    with m show ?thesis by auto
  next
    case 2
    show ?thesis
    proof (cases "list_ex (\<lambda>z. py_equal z a) st")
      case True
      then obtain z where "z \<in> set st" "py_equal z a"
        by (auto simp: list_ex_iff)
      then have "z \<in> set (py_set_add st a)"
        by (simp add: py_set_add_def)
      with m \<open>py_equal z a\<close> 2 show ?thesis by auto
    next
      case False
      then have "a \<in> set (py_set_add st a)"
        by (simp add: py_set_add_def)
      with m 2 show ?thesis by auto
    qed
  next
    case 3
    then show ?thesis
      using Cons.IH [of "py_set_add st a"] by simp
  qed
qed

lemma py_distinct_snoc:
  "py_distinct (st @ [v]) = (py_distinct st \<and> \<not> list_ex (\<lambda>x. py_equal x v) st)"
  by (induction st) (auto simp: list_ex_iff dest: py_equal_sym)

lemma fold_add_distinct: "py_distinct st \<Longrightarrow> py_distinct (foldl py_set_add st xs)"
proof (induction xs arbitrary: st)
  case Nil
  then show ?case by simp
next
  case (Cons a xs)
  from Cons.prems have "py_distinct (py_set_add st a)"
    by (simp add: py_set_add_def py_distinct_snoc)
  then show ?case
    using Cons.IH by simp
qed

lemma py_distinct_length_le:
  assumes "py_distinct a" "\<forall>x \<in> set a. \<exists>y \<in> set b. py_equal x y"
  shows "length a \<le> length b"
  using assms
proof (induction a arbitrary: b)
  case Nil
  show ?case by simp
next
  case (Cons x a)
  from Cons.prems obtain y where y: "y \<in> set b" "py_equal x y"
    by auto
  have "\<forall>x' \<in> set a. \<exists>y' \<in> set (remove1 y b). py_equal x' y'"
  proof
    fix x'
    assume x': "x' \<in> set a"
    with Cons.prems obtain y' where y': "y' \<in> set b" "py_equal x' y'"
      by auto
    have "y' \<noteq> y"
    proof
      assume "y' = y"
      with y y' have "py_equal x x'"
        by (auto intro: py_equal_trans py_equal_sym)
      with Cons.prems(1) x' show False
        by (auto simp: list_ex_iff)
    qed
    with y' show "\<exists>y' \<in> set (remove1 y b). py_equal x' y'"
      by auto
  qed
  with Cons.IH [of "remove1 y b"] Cons.prems(1) have "length a \<le> length (remove1 y b)"
    by simp
  moreover from y(1) have "length (remove1 y b) = length b - 1"
    by (simp add: length_remove1)
  moreover from y(1) have "0 < length b"
    by (cases b) auto
  ultimately have "Suc (length a) \<le> length b"
    by arith
  then show ?case
    by simp
qed

lemma py_set_equal_same_elements:
  assumes "py_distinct a" "py_distinct b"
    and "\<forall>x \<in> set a. \<exists>y \<in> set b. py_equal x y" "\<forall>y \<in> set b. \<exists>x \<in> set a. py_equal y x"
  shows "py_set_equal a b"
  using py_distinct_length_le [OF assms(1,3)] py_distinct_length_le [OF assms(2,4)] assms(3)
  by (auto simp: py_set_equal_def list_all_iff list_ex_iff)

lemma py_set_of_same_elements:
  assumes "\<forall>x \<in> set xs. \<exists>y \<in> set ys. py_equal x y"
  shows "\<forall>x \<in> set (py_set_of xs). \<exists>y \<in> set (py_set_of ys). py_equal x y"
proof
  fix x
  assume "x \<in> set (py_set_of xs)"
  then have "x \<in> set xs"
    using fold_add_members [of "[]" xs] by (auto simp: py_set_of_def)
  with assms obtain y where y: "y \<in> set ys" "py_equal x y"
    by auto
  from fold_add_holds [of y "[]" ys] y(1) obtain z where z: "z \<in> set (py_set_of ys)" "z = y \<or> py_equal z y"
    by (auto simp: py_set_of_def)
  with y(2) have "py_equal x z"
    by (auto intro: py_equal_trans py_equal_sym)
  with z(1) show "\<exists>y \<in> set (py_set_of ys). py_equal x y"
    by auto
qed

lemma py_set_of_equal:
  assumes "\<forall>x \<in> set xs. \<exists>y \<in> set ys. py_equal x y" "\<forall>y \<in> set ys. \<exists>x \<in> set xs. py_equal y x"
  shows "py_set_equal (py_set_of xs) (py_set_of ys)"
  by (rule py_set_equal_same_elements)
     (simp_all add: py_set_of_def fold_add_distinct py_set_of_same_elements [OF assms(1), unfolded py_set_of_def]
        py_set_of_same_elements [OF assms(2), unfolded py_set_of_def])

subsection \<open>The claims about the marshaller\<close>

text \<open>
  Claim C4. When the engine reports the value as unchanged and no-change mode is enabled, the
  conversion returns the no-change sentinel (a new reference, nothing else touched). With
  no-change mode disabled the flag is not consulted: the value converts exactly as the same
  value without the flag does, and a NULL-typed one (an untouched column) becomes \<open>None\<close>.
\<close>

theorem no_change_sentinel:
  assumes "sqlite3_value_nochange v"
  shows "convert_value_to_pyobject v icp True s = (Some apsw_no_change_object, s\<lparr>refs := refs s + 1\<rparr>)
       \<and> convert_value_to_pyobject v icp False s =
           convert_value_to_pyobject
             (Sqlite3_Value (sqlite3_value_type v) False (sqlite3_value_int64 v) (sqlite3_value_double v)
                (value_data v) (vtab_in v)) icp False s
       \<and> (sqlite3_value_type v = SQLITE_NULL \<longrightarrow>
            convert_value_to_pyobject v False False s = (Some Py_None, s\<lparr>refs := refs s + 1\<rparr>))"
proof (intro conjI impI)
  show "convert_value_to_pyobject v icp True s = (Some apsw_no_change_object, s\<lparr>refs := refs s + 1\<rparr>)"
    using assms by (simp add: convert_nochange)
  show "convert_value_to_pyobject v icp False s =
           convert_value_to_pyobject
             (Sqlite3_Value (sqlite3_value_type v) False (sqlite3_value_int64 v) (sqlite3_value_double v)
                (value_data v) (vtab_in v)) icp False s"
    by (cases v)
       (simp add: convert_value_to_pyobject.simps [of _ icp False] Let_def sqlite3_vtab_in_first_def
          sqlite3_value_text_def sqlite3_value_blob_def sqlite3_value_bytes_def)
  show "convert_value_to_pyobject v False False s = (Some Py_None, s\<lparr>refs := refs s + 1\<rparr>)"
    if "sqlite3_value_type v = SQLITE_NULL"
    using that by (simp add: convert_null_plain scalar_tag_def)
qed

text \<open>Claim C4 at a concrete unchanged NULL column.\<close>

theorem no_change_sentinel_witness:
  "sqlite3_value_nochange (Sqlite3_Value SQLITE_NULL True 0 0 [] [])
   \<and> convert_value_to_pyobject (Sqlite3_Value SQLITE_NULL True 0 0 [] []) False True
        \<lparr>faults = [], err = None, refs = 0, in_calls = []\<rparr>
      = (Some apsw_no_change_object, \<lparr>faults = [], err = None, refs = 1, in_calls = []\<rparr>)
   \<and> convert_value_to_pyobject (Sqlite3_Value SQLITE_NULL True 0 0 [] []) False False
        \<lparr>faults = [], err = None, refs = 0, in_calls = []\<rparr>
      = (Some Py_None, \<lparr>faults = [], err = None, refs = 1, in_calls = []\<rparr>)"
proof -
  have h: "sqlite3_value_nochange (Sqlite3_Value SQLITE_NULL True 0 0 [] [])"
    by simp
  note t = no_change_sentinel [OF h, of False "\<lparr>faults = [], err = None, refs = 0, in_calls = []\<rparr>"]
  have a: "convert_value_to_pyobject (Sqlite3_Value SQLITE_NULL True 0 0 [] []) False True
        \<lparr>faults = [], err = None, refs = 0, in_calls = []\<rparr>
      = (Some apsw_no_change_object, \<lparr>faults = [], err = None, refs = 1, in_calls = []\<rparr>)"
    using t [THEN conjunct1] by simp
  have c: "convert_value_to_pyobject (Sqlite3_Value SQLITE_NULL True 0 0 [] []) False False
        \<lparr>faults = [], err = None, refs = 0, in_calls = []\<rparr>
      = (Some Py_None, \<lparr>faults = [], err = None, refs = 1, in_calls = []\<rparr>)"
    using t [THEN conjunct2, THEN conjunct2] by simp
  show ?thesis
    using h a c by simp
qed

text \<open>
  Claim C10. The no-change test comes first: a value reported unchanged, converted with
  no-change mode enabled, yields the sentinel whatever its type tag \<open>tag\<close> and whatever
  its IN-list answers are; with constraint mode enabled as well, no call to
  \<open>sqlite3_vtab_in_first\<close> is made and no host constructor runs.
\<close>

theorem no_change_precedes_dispatch:
  "convert_value_to_pyobject (Sqlite3_Value tag True i d b answers) in_constraint_possible True s =
     (Some apsw_no_change_object, s\<lparr>refs := refs s + 1\<rparr>)
   \<and> in_calls (snd (convert_value_to_pyobject (Sqlite3_Value tag True i d b answers) True True s)) = in_calls s
   \<and> faults (snd (convert_value_to_pyobject (Sqlite3_Value tag True i d b answers) True True s)) = faults s"
  by (simp add: convert_nochange)

text \<open>Claim C10 at an INTEGER-tagged value that is also the head of an IN list.\<close>

theorem no_change_precedes_dispatch_witness:
  "convert_value_to_pyobject
     (Sqlite3_Value SQLITE_INTEGER True 7 0 [] [(SQLITE_OK, Some (Sqlite3_Value SQLITE_INTEGER False 1 0 [] [])), (SQLITE_DONE, None)])
     True True \<lparr>faults = [Some (PyExc_Other ''MemoryError'')], err = None, refs = 0, in_calls = []\<rparr>
   = (Some apsw_no_change_object, \<lparr>faults = [Some (PyExc_Other ''MemoryError'')], err = None, refs = 1, in_calls = []\<rparr>)"
  using no_change_precedes_dispatch [of SQLITE_INTEGER 7 0 "[]"
      "[(SQLITE_OK, Some (Sqlite3_Value SQLITE_INTEGER False 1 0 [] [])), (SQLITE_DONE, None)]" True
      "\<lparr>faults = [Some (PyExc_Other ''MemoryError'')], err = None, refs = 0, in_calls = []\<rparr>"]
  by simp

lemma scalar_when_host_succeeds:
  "host_succeeds (Suc 0) t \<Longrightarrow> fst (convert_value_to_pyobject e False False t) = Some (converted e)"
  by (simp add: convert_scalar host_call_succeeds converted_null)

text \<open>
  Claim C3. Let \<open>v\<close> be the head of an IN list with elements \<open>es\<close> (the engine answers
  \<open>SQLITE_OK\<close> with each element in turn, then \<open>SQLITE_DONE\<close>), on the NULL/default branch and
  not short-cut by the no-change test, and let the host calls of the conversion succeed. Then
  with constraint mode enabled the conversion asks the engine for every element up to the
  \<open>SQLITE_DONE\<close> answer, converts each element with both modes disabled, and returns the set
  that adding the converted elements in turn gives. Every element of that set is a converted
  element; every converted element is in the set, itself or an element equal to it; and no
  two elements of the set are equal. The set does not depend on the order or the multiplicity
  of the elements: a list \<open>es'\<close> with the same elements up to the host's equality gives a set
  that the host finds equal. With constraint mode disabled the same value converts to \<open>None\<close>.
\<close>

theorem in_constraint_expansion:
  assumes null: "\<not> scalar_tag v"
    and nc: "\<not> (no_change_possible \<and> sqlite3_value_nochange v)"
    and head: "vtab_in v = ok_answers es @ [(SQLITE_DONE, None)]" and ne: "es \<noteq> []"
    and host: "host_succeeds (1 + total_host_calls es) s"
  shows "convert_value_to_pyobject v True no_change_possible s =
           (Some (PySet (py_set_of (map converted es))),
            s\<lparr>faults := drop (1 + total_host_calls es) (faults s), refs := refs s + 1,
              in_calls := in_calls s @ In_First SQLITE_OK # replicate (length es - 1) (In_Next SQLITE_OK)
                            @ [In_Next SQLITE_DONE]\<rparr>)
       \<and> (\<forall>e t. host_succeeds 1 t \<longrightarrow>
              fst (convert_value_to_pyobject e False False (t :: 'a hoststate_scheme)) = Some (converted e))
       \<and> set (py_set_of (map converted es)) \<subseteq> converted ` set es
       \<and> (\<forall>e \<in> set es. list_ex (\<lambda>x. x = converted e \<or> py_equal x (converted e)) (py_set_of (map converted es)))
       \<and> py_distinct (py_set_of (map converted es))
       \<and> (\<forall>v' es'. \<not> scalar_tag v' \<and> \<not> (no_change_possible \<and> sqlite3_value_nochange v')
              \<and> vtab_in v' = ok_answers es' @ [(SQLITE_DONE, None)]
              \<and> list_all (\<lambda>e. list_ex (\<lambda>e'. py_equal (converted e) (converted e')) es') es
              \<and> list_all (\<lambda>e'. list_ex (\<lambda>e. py_equal (converted e') (converted e)) es) es'
              \<and> host_succeeds (1 + total_host_calls es') s \<longrightarrow>
              fst (convert_value_to_pyobject v' True no_change_possible s) =
                Some (PySet (py_set_of (map converted es')))
              \<and> py_set_equal (py_set_of (map converted es)) (py_set_of (map converted es')))
       \<and> convert_value_to_pyobject v False no_change_possible s = (Some Py_None, s\<lparr>refs := refs s + 1\<rparr>)"
proof (intro conjI allI impI ballI)
  show "convert_value_to_pyobject v True no_change_possible s =
           (Some (PySet (py_set_of (map converted es))),
            s\<lparr>faults := drop (1 + total_host_calls es) (faults s), refs := refs s + 1,
              in_calls := in_calls s @ In_First SQLITE_OK # replicate (length es - 1) (In_Next SQLITE_OK)
                            @ [In_Next SQLITE_DONE]\<rparr>)"
    by (rule expansion_ok [OF null nc head ne host])
  show "fst (convert_value_to_pyobject e False False t) = Some (converted e)"
    if "host_succeeds 1 t" for e and t :: "'a hoststate_scheme"
    using that by (simp add: scalar_when_host_succeeds)
  show "set (py_set_of (map converted es)) \<subseteq> converted ` set es"
    using fold_add_members [of "[]" "map converted es"] by (simp add: py_set_of_def)
  show "list_ex (\<lambda>x. x = converted e \<or> py_equal x (converted e)) (py_set_of (map converted es))"
    if "e \<in> set es" for e
    using that fold_add_holds [of "converted e" "[]" "map converted es"]
    by (auto simp: py_set_of_def list_ex_iff)
  show "py_distinct (py_set_of (map converted es))"
    by (simp add: py_set_of_def fold_add_distinct)
next
  fix v' es'
  assume h: "\<not> scalar_tag v' \<and> \<not> (no_change_possible \<and> sqlite3_value_nochange v')
              \<and> vtab_in v' = ok_answers es' @ [(SQLITE_DONE, None)]
              \<and> list_all (\<lambda>e. list_ex (\<lambda>e'. py_equal (converted e) (converted e')) es') es
              \<and> list_all (\<lambda>e'. list_ex (\<lambda>e. py_equal (converted e') (converted e)) es) es'
              \<and> host_succeeds (1 + total_host_calls es') s"
  from h ne have ne': "es' \<noteq> []"
    by (cases es) auto
  from h show "fst (convert_value_to_pyobject v' True no_change_possible s) =
                Some (PySet (py_set_of (map converted es')))"
    by (simp add: expansion_ok [OF _ _ _ ne'])
  from h have "\<forall>x \<in> set (map converted es). \<exists>y \<in> set (map converted es'). py_equal x y"
    and "\<forall>y \<in> set (map converted es'). \<exists>x \<in> set (map converted es). py_equal y x"
    by (auto simp: list_all_iff list_ex_iff)
  then show "py_set_equal (py_set_of (map converted es)) (py_set_of (map converted es'))"
    by (rule py_set_of_equal)
next
  show "convert_value_to_pyobject v False no_change_possible s = (Some Py_None, s\<lparr>refs := refs s + 1\<rparr>)"
    using null nc by (simp add: convert_null_plain)
qed

text \<open>
  Claim C3 at the list [1, "a", NULL, 1, 1.0], with the element "a" converted on its own and
  the same values offered as [1.0, NULL, "a"].
\<close>

theorem in_constraint_expansion_witness:
  "convert_value_to_pyobject
     (Sqlite3_Value SQLITE_NULL False 0 0 []
        [(SQLITE_OK, Some (Sqlite3_Value SQLITE_INTEGER False 1 0 [] [])),
         (SQLITE_OK, Some (Sqlite3_Value SQLITE_TEXT False 0 0 [97] [])),
         (SQLITE_OK, Some (Sqlite3_Value SQLITE_NULL False 0 0 [] [])),
         (SQLITE_OK, Some (Sqlite3_Value SQLITE_INTEGER False 1 0 [] [])),
         (SQLITE_OK, Some (Sqlite3_Value SQLITE_FLOAT False 0 0x3FF0000000000000 [] [])),
         (SQLITE_DONE, None)])
     True False \<lparr>faults = [], err = None, refs = 0, in_calls = []\<rparr>
   = (Some (PySet [PyLong 1, PyUnicode [97], Py_None]),
      \<lparr>faults = [], err = None, refs = 1,
       in_calls = [In_First SQLITE_OK, In_Next SQLITE_OK, In_Next SQLITE_OK, In_Next SQLITE_OK,
                   In_Next SQLITE_OK, In_Next SQLITE_DONE]\<rparr>)
   \<and> fst (convert_value_to_pyobject (Sqlite3_Value SQLITE_TEXT False 0 0 [97] []) False False
        \<lparr>faults = [], err = None, refs = 0, in_calls = []\<rparr>) = Some (PyUnicode [97])
   \<and> list_ex (\<lambda>x. x = PyFloat 0x3FF0000000000000 \<or> py_equal x (PyFloat 0x3FF0000000000000))
        [PyLong 1, PyUnicode [97], Py_None]
   \<and> py_distinct [PyLong 1, PyUnicode [97], Py_None]
   \<and> fst (convert_value_to_pyobject
     (Sqlite3_Value SQLITE_NULL False 0 0 []
        [(SQLITE_OK, Some (Sqlite3_Value SQLITE_FLOAT False 0 0x3FF0000000000000 [] [])),
         (SQLITE_OK, Some (Sqlite3_Value SQLITE_NULL False 0 0 [] [])),
         (SQLITE_OK, Some (Sqlite3_Value SQLITE_TEXT False 0 0 [97] [])),
         (SQLITE_DONE, None)])
     True False \<lparr>faults = [], err = None, refs = 0, in_calls = []\<rparr>)
     = Some (PySet [PyFloat 0x3FF0000000000000, Py_None, PyUnicode [97]])
   \<and> py_set_equal [PyLong 1, PyUnicode [97], Py_None] [PyFloat 0x3FF0000000000000, Py_None, PyUnicode [97]]
   \<and> convert_value_to_pyobject
     (Sqlite3_Value SQLITE_NULL False 0 0 []
        [(SQLITE_OK, Some (Sqlite3_Value SQLITE_INTEGER False 1 0 [] [])),
         (SQLITE_OK, Some (Sqlite3_Value SQLITE_TEXT False 0 0 [97] [])),
         (SQLITE_OK, Some (Sqlite3_Value SQLITE_NULL False 0 0 [] [])),
         (SQLITE_OK, Some (Sqlite3_Value SQLITE_INTEGER False 1 0 [] [])),
         (SQLITE_OK, Some (Sqlite3_Value SQLITE_FLOAT False 0 0x3FF0000000000000 [] [])),
         (SQLITE_DONE, None)])
     False False \<lparr>faults = [], err = None, refs = 0, in_calls = []\<rparr>
   = (Some Py_None, \<lparr>faults = [], err = None, refs = 1, in_calls = []\<rparr>)"
proof -
  let ?i = "Sqlite3_Value SQLITE_INTEGER False 1 0 [] []"
  let ?u = "Sqlite3_Value SQLITE_TEXT False 0 0 [97] []"
  let ?n = "Sqlite3_Value SQLITE_NULL False 0 0 [] []"
  let ?f = "Sqlite3_Value SQLITE_FLOAT False 0 0x3FF0000000000000 [] []"
  let ?es = "[?i, ?u, ?n, ?i, ?f]"
  let ?es' = "[?f, ?n, ?u]"
  let ?v = "Sqlite3_Value SQLITE_NULL False 0 0 [] (ok_answers ?es @ [(SQLITE_DONE, None)])"
  let ?v' = "Sqlite3_Value SQLITE_NULL False 0 0 [] (ok_answers ?es' @ [(SQLITE_DONE, None)])"
  let ?s = "\<lparr>faults = [], err = None, refs = 0, in_calls = []\<rparr>"
  have one: "py_equal (PyLong 1) (PyFloat 0x3FF0000000000000)"
    by (simp add: py_equal_def double_is_nan_def double_is_infinite_def double_value_def
        double_exponent_def double_fraction_def double_negative_def)
  have one': "py_equal (PyFloat 0x3FF0000000000000) (PyLong 1)"
    using one by (rule py_equal_sym)
  have others [simp]:
    "py_equal (PyLong 1) (PyLong 1)" "py_equal (PyUnicode [97]) (PyUnicode [97])" "py_equal Py_None Py_None"
    "py_equal (PyFloat 0x3FF0000000000000) (PyFloat 0x3FF0000000000000)"
    "\<not> py_equal (PyLong 1) (PyUnicode [97])" "\<not> py_equal (PyLong 1) Py_None"
    "\<not> py_equal (PyUnicode [97]) Py_None" "\<not> py_equal (PyUnicode [97]) (PyLong 1)"
    "\<not> py_equal Py_None (PyLong 1)" "\<not> py_equal Py_None (PyUnicode [97])"
    "\<not> py_equal (PyFloat 0x3FF0000000000000) Py_None" "\<not> py_equal (PyFloat 0x3FF0000000000000) (PyUnicode [97])"
    "\<not> py_equal Py_None (PyFloat 0x3FF0000000000000)" "\<not> py_equal (PyUnicode [97]) (PyFloat 0x3FF0000000000000)"
    by (simp_all add: py_equal_def double_is_nan_def double_is_infinite_def double_exponent_def
        double_fraction_def)
  have set_es: "py_set_of (map converted ?es) = [PyLong 1, PyUnicode [97], Py_None]"
    by (simp add: converted_eq sqlite3_value_text_def sqlite3_value_bytes_def py_set_of_def py_set_add_def one)
  have set_es': "py_set_of (map converted ?es') = [PyFloat 0x3FF0000000000000, Py_None, PyUnicode [97]]"
    by (simp add: converted_eq sqlite3_value_text_def sqlite3_value_bytes_def py_set_of_def py_set_add_def)
  have null: "\<not> scalar_tag ?v" by (simp add: scalar_tag_def)
  have nc: "\<not> (False \<and> sqlite3_value_nochange ?v)" by simp
  have head: "vtab_in ?v = ok_answers ?es @ [(SQLITE_DONE, None)]" by simp
  have ne: "?es \<noteq> []" by simp
  have host: "host_succeeds (1 + total_host_calls ?es) ?s" by (simp add: host_succeeds_def)
  note t = in_constraint_expansion [OF null nc head ne host]
  have a: "convert_value_to_pyobject ?v True False ?s =
      (Some (PySet [PyLong 1, PyUnicode [97], Py_None]),
      \<lparr>faults = [], err = None, refs = 1,
       in_calls = [In_First SQLITE_OK, In_Next SQLITE_OK, In_Next SQLITE_OK, In_Next SQLITE_OK,
                   In_Next SQLITE_OK, In_Next SQLITE_DONE]\<rparr>)"
    using t [THEN conjunct1] unfolding set_es by (simp add: numeral_eq_Suc)
  have h1: "host_succeeds 1 ?s" by (simp add: host_succeeds_def)
  have e: "fst (convert_value_to_pyobject ?u False False ?s) = Some (PyUnicode [97])"
    using t [THEN conjunct2, THEN conjunct1, rule_format, OF h1, of ?u]
    by (simp add: converted_eq sqlite3_value_text_def sqlite3_value_bytes_def)
  have "?f \<in> set ?es" by simp
  from t [THEN conjunct2, THEN conjunct2, THEN conjunct2, THEN conjunct1, rule_format, OF this]
  have m: "list_ex (\<lambda>x. x = PyFloat 0x3FF0000000000000 \<or> py_equal x (PyFloat 0x3FF0000000000000))
        [PyLong 1, PyUnicode [97], Py_None]"
    unfolding set_es by (simp add: converted_eq)
  have d: "py_distinct [PyLong 1, PyUnicode [97], Py_None]"
    using t [THEN conjunct2, THEN conjunct2, THEN conjunct2, THEN conjunct2, THEN conjunct1]
    unfolding set_es .
  have p: "\<not> scalar_tag ?v' \<and> \<not> (False \<and> sqlite3_value_nochange ?v')
              \<and> vtab_in ?v' = ok_answers ?es' @ [(SQLITE_DONE, None)]
              \<and> list_all (\<lambda>e. list_ex (\<lambda>e'. py_equal (converted e) (converted e')) ?es') ?es
              \<and> list_all (\<lambda>e'. list_ex (\<lambda>e. py_equal (converted e') (converted e)) ?es) ?es'
              \<and> host_succeeds (1 + total_host_calls ?es') ?s"
    by (simp add: scalar_tag_def host_succeeds_def converted_eq sqlite3_value_text_def
        sqlite3_value_bytes_def one one')
  note q = t [THEN conjunct2, THEN conjunct2, THEN conjunct2, THEN conjunct2, THEN conjunct2,
      THEN conjunct1, rule_format, OF p]
  have c: "fst (convert_value_to_pyobject ?v' True False ?s) =
           Some (PySet [PyFloat 0x3FF0000000000000, Py_None, PyUnicode [97]])"
    using q [THEN conjunct1] unfolding set_es' .
  have eq: "py_set_equal [PyLong 1, PyUnicode [97], Py_None] [PyFloat 0x3FF0000000000000, Py_None, PyUnicode [97]]"
    using q [THEN conjunct2] unfolding set_es set_es' .
  have b: "convert_value_to_pyobject ?v False False ?s =
      (Some Py_None, \<lparr>faults = [], err = None, refs = 1, in_calls = []\<rparr>)"
    using t [THEN conjunct2, THEN conjunct2, THEN conjunct2, THEN conjunct2, THEN conjunct2, THEN conjunct2]
    by simp
  show ?thesis
    using a e m d c eq b by (simp add: ok_answers_def)
qed

text \<open>
  Claim C5. During the expansion of an IN list whose first elements \<open>pre\<close> were converted
  and added: (1) if converting the next element \<open>e\<close> fails in the host with exception
  \<open>ex\<close>, or (2) if the engine answers the following \<open>sqlite3_vtab_in_next\<close> with a code
  other than \<open>SQLITE_OK\<close> and \<open>SQLITE_DONE\<close>, the conversion returns NULL with an exception
  set (\<open>ex\<close>, respectively \<open>ValueError\<close>) and owns no more references than before: the
  partial set and its elements have been released. (3) Whenever any conversion returns NULL,
  the reference count is as before, an exception is pending, and the rest of the state (the
  record extension, where other operations keep theirs) is untouched.
\<close>

theorem constraint_expansion_failure:
  assumes null: "\<not> scalar_tag v"
    and nc: "\<not> (no_change_possible \<and> sqlite3_value_nochange v)"
    and head: "vtab_in v = ok_answers pre @ (SQLITE_OK, Some e) # rest"
  shows "(scalar_tag e \<and> faults s = replicate (1 + total_host_calls pre) None @ Some ex # fs \<longrightarrow>
            convert_value_to_pyobject v True no_change_possible s =
              (None, s\<lparr>faults := fs, err := Some ex,
                         in_calls := in_calls s @ In_First SQLITE_OK # replicate (length pre) (In_Next SQLITE_OK)\<rparr>))
       \<and> (rest = (rc, p) # rest' \<and> rc \<noteq> SQLITE_OK \<and> rc \<noteq> SQLITE_DONE
            \<and> host_succeeds (1 + total_host_calls (pre @ [e])) s \<longrightarrow>
            convert_value_to_pyobject v True no_change_possible s =
              (None, s\<lparr>faults := drop (1 + total_host_calls (pre @ [e])) (faults s),
                         err := Some PyExc_ValueError,
                         in_calls := in_calls s @ In_First SQLITE_OK # replicate (length pre) (In_Next SQLITE_OK)
                                       @ [In_Next rc]\<rparr>))
       \<and> (fst (convert_value_to_pyobject v' icp' ncp' t) = None \<longrightarrow>
            refs (snd (convert_value_to_pyobject v' icp' ncp' t)) = refs t
            \<and> err (snd (convert_value_to_pyobject v' icp' ncp' t)) \<noteq> None
            \<and> hoststate.more (snd (convert_value_to_pyobject v' icp' ncp' t)) = hoststate.more t)"
proof (intro conjI impI)
  assume "scalar_tag e \<and> faults s = replicate (1 + total_host_calls pre) None @ Some ex # fs"
  then show "convert_value_to_pyobject v True no_change_possible s =
              (None, s\<lparr>faults := fs, err := Some ex,
                         in_calls := in_calls s @ In_First SQLITE_OK # replicate (length pre) (In_Next SQLITE_OK)\<rparr>)"
    using expansion_element_fails [OF null nc head] by blast
next
  assume b: "rest = (rc, p) # rest' \<and> rc \<noteq> SQLITE_OK \<and> rc \<noteq> SQLITE_DONE
            \<and> host_succeeds (1 + total_host_calls (pre @ [e])) s"
  have h: "vtab_in v = ok_answers (pre @ [e]) @ (rc, p) # rest'"
    using head b by (simp add: ok_answers_def)
  show "convert_value_to_pyobject v True no_change_possible s =
              (None, s\<lparr>faults := drop (1 + total_host_calls (pre @ [e])) (faults s),
                         err := Some PyExc_ValueError,
                         in_calls := in_calls s @ In_First SQLITE_OK # replicate (length pre) (In_Next SQLITE_OK)
                                       @ [In_Next rc]\<rparr>)"
    using expansion_next_fails [OF null nc h, of s] b by simp
next
  assume n: "fst (convert_value_to_pyobject v' icp' ncp' t) = None"
  show "refs (snd (convert_value_to_pyobject v' icp' ncp' t)) = refs t"
    using convert_outcome [of t v' icp' ncp'] n by (simp add: new_reference_or_null_def)
  show "err (snd (convert_value_to_pyobject v' icp' ncp' t)) \<noteq> None"
    using convert_outcome [of t v' icp' ncp'] n by (simp add: new_reference_or_null_def)
  show "hoststate.more (snd (convert_value_to_pyobject v' icp' ncp' t)) = hoststate.more t"
    using convert_outcome [of t v' icp' ncp'] by (simp add: new_reference_or_null_def)
qed

text \<open>
  Claim C5 at a failing text decode of the second element, at a failing next step, and at a
  failing allocation of a BLOB.
\<close>

theorem constraint_expansion_failure_witness:
  "convert_value_to_pyobject
     (Sqlite3_Value SQLITE_NULL False 0 0 []
        [(SQLITE_OK, Some (Sqlite3_Value SQLITE_INTEGER False 1 0 [] [])),
         (SQLITE_OK, Some (Sqlite3_Value SQLITE_TEXT False 0 0 [255] [])),
         (SQLITE_DONE, None)])
     True False
     \<lparr>faults = [None, None, None, Some (PyExc_Other ''UnicodeDecodeError'')], err = None, refs = 0, in_calls = []\<rparr>
   = (None, \<lparr>faults = [], err = Some (PyExc_Other ''UnicodeDecodeError''), refs = 0,
             in_calls = [In_First SQLITE_OK, In_Next SQLITE_OK]\<rparr>)
   \<and> convert_value_to_pyobject
     (Sqlite3_Value SQLITE_NULL False 0 0 []
        [(SQLITE_OK, Some (Sqlite3_Value SQLITE_INTEGER False 1 0 [] [])),
         (7, None)])
     True False \<lparr>faults = [], err = None, refs = 0, in_calls = []\<rparr>
   = (None, \<lparr>faults = [], err = Some PyExc_ValueError, refs = 0,
             in_calls = [In_First SQLITE_OK, In_Next 7]\<rparr>)
   \<and> refs (snd (convert_value_to_pyobject (Sqlite3_Value SQLITE_BLOB False 0 0 [0] []) False False
        \<lparr>faults = [Some (PyExc_Other ''MemoryError'')], err = None, refs = 5, in_calls = []\<rparr>)) = 5
   \<and> err (snd (convert_value_to_pyobject (Sqlite3_Value SQLITE_BLOB False 0 0 [0] []) False False
        \<lparr>faults = [Some (PyExc_Other ''MemoryError'')], err = None, refs = 5, in_calls = []\<rparr>)) \<noteq> None"
proof -
  let ?i = "Sqlite3_Value SQLITE_INTEGER False 1 0 [] []"
  let ?u = "Sqlite3_Value SQLITE_TEXT False 0 0 [255] []"
  let ?b = "Sqlite3_Value SQLITE_BLOB False 0 0 [0] []"
  let ?v1 = "Sqlite3_Value SQLITE_NULL False 0 0 []
               (ok_answers [?i] @ (SQLITE_OK, Some ?u) # [(SQLITE_DONE, None)])"
  let ?s1 = "\<lparr>faults = [None, None, None, Some (PyExc_Other ''UnicodeDecodeError'')], err = None,
              refs = 0, in_calls = []\<rparr>"
  let ?v2 = "Sqlite3_Value SQLITE_NULL False 0 0 [] (ok_answers [] @ (SQLITE_OK, Some ?i) # [(7, None)])"
  let ?s2 = "\<lparr>faults = [], err = None, refs = 0, in_calls = []\<rparr>"
  let ?s3 = "\<lparr>faults = [Some (PyExc_Other ''MemoryError'')], err = None, refs = 5, in_calls = []\<rparr>"
  have null1: "\<not> scalar_tag ?v1" and null2: "\<not> scalar_tag ?v2"
    by (simp_all add: scalar_tag_def)
  have nc1: "\<not> (False \<and> sqlite3_value_nochange ?v1)" and nc2: "\<not> (False \<and> sqlite3_value_nochange ?v2)"
    by simp_all
  have head1: "vtab_in ?v1 = ok_answers [?i] @ (SQLITE_OK, Some ?u) # [(SQLITE_DONE, None)]"
    and head2: "vtab_in ?v2 = ok_answers [] @ (SQLITE_OK, Some ?i) # [(7, None)]"
    by simp_all
  have a: "convert_value_to_pyobject ?v1 True False ?s1 =
      (None, \<lparr>faults = [], err = Some (PyExc_Other ''UnicodeDecodeError''), refs = 0,
             in_calls = [In_First SQLITE_OK, In_Next SQLITE_OK]\<rparr>)"
    using constraint_expansion_failure [OF null1 nc1 head1,
        where s = ?s1 and ex = "PyExc_Other ''UnicodeDecodeError''" and fs = "[]", THEN conjunct1]
    by (simp add: scalar_tag_def total_host_calls_def n_host_calls_def numeral_eq_Suc)
  have b: "convert_value_to_pyobject ?v2 True False ?s2 =
      (None, \<lparr>faults = [], err = Some PyExc_ValueError, refs = 0,
             in_calls = [In_First SQLITE_OK, In_Next 7]\<rparr>)"
    using constraint_expansion_failure [OF null2 nc2 head2,
        where rc = 7 and p = None and rest' = "[]" and s = ?s2, THEN conjunct2, THEN conjunct1]
    by (simp add: host_succeeds_def)
  have n: "fst (convert_value_to_pyobject ?b False False ?s3) = None"
    by (simp add: convert_value_to_pyobject.simps PyBytes_FromStringAndSize_def host_new_def host_call_def)
  note c = constraint_expansion_failure [OF null2 nc2 head2,
        where v' = ?b and icp' = False and ncp' = False and t = ?s3,
        THEN conjunct2, THEN conjunct2, THEN mp, OF n]
  show ?thesis
    using a b c by (simp add: ok_answers_def)
qed

section \<open>Bridge and guard: proofs\<close>

lemma call_E:
  "PYSQLITE_CALL_E db x s =
     (if accepted (fst (x (db_errmsg s))) then
        s\<lparr>gil_held := True, res := fst (x (db_errmsg s)), db_errmsg := snd (x (db_errmsg s)),
          events := events s @ [Ev_gil_release, Ev_mutex_enter db, Ev_native_call, Ev_mutex_leave db, Ev_gil_acquire]\<rparr>
      else
        s\<lparr>gil_held := True, res := fst (x (db_errmsg s)), db_errmsg := snd (x (db_errmsg s)),
          apsw_errmsg := Some (snd (x (db_errmsg s)) db),
          events := events s @ [Ev_gil_release, Ev_mutex_enter db, Ev_native_call,
             Ev_errmsg_read db, Ev_errmsg_copy (snd (x (db_errmsg s)) db), Ev_mutex_leave db, Ev_gil_acquire]\<rparr>)"
  by (simp add: PYSQLITE_CALL_E_def Let_def Py_BEGIN_ALLOW_THREADS_def Py_END_ALLOW_THREADS_def
      sqlite3_mutex_enter_def sqlite3_mutex_leave_def native_res_def sqlite3_errmsg_def apsw_set_errmsg_def
      log_event_def accepted_def)

lemma call_V:
  "PYSQLITE_CALL_V x s =
     s\<lparr>gil_held := True, db_errmsg := snd (x (db_errmsg s)),
       events := events s @ [Ev_gil_release, Ev_native_call, Ev_gil_acquire]\<rparr>"
  by (simp add: PYSQLITE_CALL_V_def Py_BEGIN_ALLOW_THREADS_def Py_END_ALLOW_THREADS_def native_void_def
      log_event_def)

lemma new_events_E:
  "new_events s (PYSQLITE_CALL_E db x s) =
     [Ev_gil_release, Ev_mutex_enter db, Ev_native_call]
     @ (if accepted (fst (x (db_errmsg s))) then []
        else [Ev_errmsg_read db, Ev_errmsg_copy (snd (x (db_errmsg s)) db)])
     @ [Ev_mutex_leave db, Ev_gil_acquire]"
  by (simp add: call_E new_events_def)

lemma new_events_V:
  "new_events s (PYSQLITE_CALL_V x s) = [Ev_gil_release, Ev_native_call, Ev_gil_acquire]"
  by (simp add: call_V new_events_def)

lemma new_events_inuse [simp]: "new_events (s\<lparr>inuse := i\<rparr>) s' = new_events s s'"
  "new_events s (s'\<lparr>inuse := i\<rparr>) = new_events s s'"
  by (simp_all add: new_events_def)

lemma discipline_E:
  "gil_held s \<Longrightarrow>
   lock_discipline [Ev_gil_release, Ev_mutex_enter db, Ev_mutex_leave db, Ev_gil_acquire] s (PYSQLITE_CALL_E db x s)"
  by (simp add: lock_discipline_def new_events_E) (simp add: call_E)

lemma discipline_V:
  "gil_held s \<Longrightarrow> lock_discipline [Ev_gil_release, Ev_gil_acquire] s (PYSQLITE_CALL_V x s)"
  by (simp add: lock_discipline_def new_events_V) (simp add: call_V)

lemma lock_discipline_inuse [simp]:
  "lock_discipline order (s\<lparr>inuse := i\<rparr>) s' = lock_discipline order s s'"
  "lock_discipline order s (s'\<lparr>inuse := i\<rparr>) = lock_discipline order s s'"
  by (simp_all add: lock_discipline_def)

lemma INUSE_CALL_Some:
  "INUSE_CALL ndebug b s = Some s' \<Longrightarrow> s' = (b (s\<lparr>inuse := 1\<rparr>))\<lparr>inuse := 0\<rparr>"
  by (auto simp: INUSE_CALL_def c_assert_def Let_def split: if_splits)

lemma inuse_call_E [simp]: "inuse (PYSQLITE_CALL_E db x s) = inuse s"
  by (simp add: call_E)

lemma inuse_call_V [simp]: "inuse (PYSQLITE_CALL_V x s) = inuse s"
  by (simp add: call_V)

lemma INUSE_CALL_runs:
  "inuse s = 0 \<Longrightarrow> inuse (b (s\<lparr>inuse := 1\<rparr>)) = 1 \<Longrightarrow>
   INUSE_CALL ndebug b s = Some ((b (s\<lparr>inuse := 1\<rparr>))\<lparr>inuse := 0\<rparr>)"
  by (simp add: INUSE_CALL_def c_assert_def)

text \<open>
  Claim C9. A thread that holds the runtime lock and runs a checked call releases the runtime
  lock, then enters the handle's mutex, then leaves the mutex, then takes the runtime lock
  again: these are the only lock events of the call, in this order. The mutex is entered only
  while the runtime lock is not held, and the runtime lock is taken again only when no mutex
  entered by the call is still held (\<open>lock_order_ok\<close>). This holds for the checked-call macro
  itself and for each call-site macro built from it (blob, connection, cursor, statement
  cache, backup); the void call only releases and retakes the runtime lock. The guarded
  call sites complete whenever the in-use flag is clear on entry.
\<close>

theorem lock_ordering:
  assumes "gil_held s"
  shows "lock_discipline [Ev_gil_release, Ev_mutex_enter db, Ev_mutex_leave db, Ev_gil_acquire] s
           (PYSQLITE_CALL_E db x s)
       \<and> lock_discipline [Ev_gil_release, Ev_mutex_enter db, Ev_mutex_leave db, Ev_gil_acquire] s
           (PYSQLITE_SC_CALL db x s)
       \<and> lock_discipline [Ev_gil_release, Ev_gil_acquire] s (PYSQLITE_CALL_V x s)
       \<and> (\<forall>site \<in> {PYSQLITE_BLOB_CALL, PYSQLITE_CON_CALL, PYSQLITE_CUR_CALL, PYSQLITE_BACKUP_CALL}.
            (inuse s = 0 \<longrightarrow> site ndebug db x s \<noteq> None)
            \<and> (\<forall>s'. site ndebug db x s = Some s' \<longrightarrow>
                  lock_discipline [Ev_gil_release, Ev_mutex_enter db, Ev_mutex_leave db, Ev_gil_acquire] s s'))
       \<and> (inuse s = 0 \<longrightarrow> PYSQLITE_VOID_CALL ndebug x s \<noteq> None)
       \<and> (\<forall>s'. PYSQLITE_VOID_CALL ndebug x s = Some s' \<longrightarrow>
              lock_discipline [Ev_gil_release, Ev_gil_acquire] s s')"
proof -
  have e: "lock_discipline [Ev_gil_release, Ev_mutex_enter db, Ev_mutex_leave db, Ev_gil_acquire] t
            (PYSQLITE_CALL_E db x t)" if "gil_held t" for t :: "'a callstate_scheme"
    using that by (rule discipline_E)
  have w: "(inuse s = 0 \<longrightarrow> INUSE_CALL ndebug (PYSQLITE_CALL_E db x) s \<noteq> None)
        \<and> (\<forall>s'. INUSE_CALL ndebug (PYSQLITE_CALL_E db x) s = Some s' \<longrightarrow>
              lock_discipline [Ev_gil_release, Ev_mutex_enter db, Ev_mutex_leave db, Ev_gil_acquire] s s')"
    using e [of "s\<lparr>inuse := 1\<rparr>"] assms
    by (auto simp: INUSE_CALL_runs dest!: INUSE_CALL_Some)
  have v: "(inuse s = 0 \<longrightarrow> INUSE_CALL ndebug (PYSQLITE_CALL_V x) s \<noteq> None)
        \<and> (\<forall>s'. INUSE_CALL ndebug (PYSQLITE_CALL_V x) s = Some s' \<longrightarrow>
              lock_discipline [Ev_gil_release, Ev_gil_acquire] s s')"
    using discipline_V [of "s\<lparr>inuse := 1\<rparr>" x] assms
    by (auto simp: INUSE_CALL_runs dest!: INUSE_CALL_Some)
  show ?thesis
    using e [OF assms] discipline_V [OF assms] w v
    by (simp add: PYSQLITE_SC_CALL_def PYSQLITE_BLOB_CALL_def PYSQLITE_CON_CALL_def PYSQLITE_CUR_CALL_def
        PYSQLITE_BACKUP_CALL_def PYSQLITE_VOID_CALL_def)
qed

text \<open>Claim C9 at a failing connection call on handle 1, and at a call with no handle.\<close>

theorem lock_ordering_witness:
  "gil_held \<lparr>faults = [], err = None, refs = 0, in_calls = [], inuse = 0, gil_held = True, res = 0,
      db_errmsg = (\<lambda>_. ''not an error''), apsw_errmsg = None, events = []\<rparr>
   \<and> filter is_lock_event (new_events
       \<lparr>faults = [], err = None, refs = 0, in_calls = [], inuse = 0, gil_held = True, res = 0,
        db_errmsg = (\<lambda>_. ''not an error''), apsw_errmsg = None, events = []\<rparr>
       (PYSQLITE_CALL_E 1 (\<lambda>t. (SQLITE_ERROR, t(1 := ''no such table'')))
         \<lparr>faults = [], err = None, refs = 0, in_calls = [], inuse = 0, gil_held = True, res = 0,
          db_errmsg = (\<lambda>_. ''not an error''), apsw_errmsg = None, events = []\<rparr>))
     = [Ev_gil_release, Ev_mutex_enter 1, Ev_mutex_leave 1, Ev_gil_acquire]
   \<and> PYSQLITE_CON_CALL False 1 (\<lambda>t. (SQLITE_ERROR, t(1 := ''no such table'')))
     \<lparr>faults = [], err = None, refs = 0, in_calls = [], inuse = 0, gil_held = True, res = 0,
      db_errmsg = (\<lambda>_. ''not an error''), apsw_errmsg = None, events = []\<rparr>
     \<noteq> None
   \<and> lock_order_ok True [] (new_events
       \<lparr>faults = [], err = None, refs = 0, in_calls = [], inuse = 0, gil_held = True, res = 0,
        db_errmsg = (\<lambda>_. ''not an error''), apsw_errmsg = None, events = []\<rparr>
       (the (PYSQLITE_CON_CALL False 1 (\<lambda>t. (SQLITE_ERROR, t(1 := ''no such table'')))
         \<lparr>faults = [], err = None, refs = 0, in_calls = [], inuse = 0, gil_held = True, res = 0,
          db_errmsg = (\<lambda>_. ''not an error''), apsw_errmsg = None, events = []\<rparr>)))
   \<and> filter is_lock_event (new_events
       \<lparr>faults = [], err = None, refs = 0, in_calls = [], inuse = 0, gil_held = True, res = 0,
        db_errmsg = (\<lambda>_. ''not an error''), apsw_errmsg = None, events = []\<rparr>
       (the (PYSQLITE_VOID_CALL False (\<lambda>t. (SQLITE_OK, t))
         \<lparr>faults = [], err = None, refs = 0, in_calls = [], inuse = 0, gil_held = True, res = 0,
          db_errmsg = (\<lambda>_. ''not an error''), apsw_errmsg = None, events = []\<rparr>)))
     = [Ev_gil_release, Ev_gil_acquire]"
proof -
  let ?s = "\<lparr>faults = [], err = None, refs = 0, in_calls = [], inuse = 0, gil_held = True, res = 0,
      db_errmsg = (\<lambda>_. ''not an error''), apsw_errmsg = None, events = []\<rparr>"
  let ?x = "\<lambda>t :: sqlite3 \<Rightarrow> string. (SQLITE_ERROR, t(1 := ''no such table''))"
  let ?y = "\<lambda>t :: sqlite3 \<Rightarrow> string. (SQLITE_OK, t)"
  have g: "gil_held ?s" and i: "inuse ?s = 0"
    by simp_all
  note t = lock_ordering [OF g, of 1 ?x False]
  note u = lock_ordering [OF g, of 1 ?y False]
  have a: "filter is_lock_event (new_events ?s (PYSQLITE_CALL_E 1 ?x ?s))
           = [Ev_gil_release, Ev_mutex_enter 1, Ev_mutex_leave 1, Ev_gil_acquire]"
    using t [THEN conjunct1] by (simp add: lock_discipline_def)
  have b: "PYSQLITE_CON_CALL False 1 ?x ?s \<noteq> None"
    using t i by simp
  then obtain s' where s': "PYSQLITE_CON_CALL False 1 ?x ?s = Some s'"
    by blast
  have "lock_discipline [Ev_gil_release, Ev_mutex_enter 1, Ev_mutex_leave 1, Ev_gil_acquire] ?s s'"
    using t s' by simp
  then have c: "lock_order_ok True [] (new_events ?s (the (PYSQLITE_CON_CALL False 1 ?x ?s)))"
    using s' by (simp add: lock_discipline_def)
  have "PYSQLITE_VOID_CALL False ?y ?s \<noteq> None"
    using u i by simp
  then obtain s'' where s'': "PYSQLITE_VOID_CALL False ?y ?s = Some s''"
    by blast
  have "lock_discipline [Ev_gil_release, Ev_gil_acquire] ?s s''"
    using u s'' by simp
  then have d: "filter is_lock_event (new_events ?s (the (PYSQLITE_VOID_CALL False ?y ?s)))
                = [Ev_gil_release, Ev_gil_acquire]"
    using s'' by (simp add: lock_discipline_def)
  show ?thesis
    using g a b c d by simp
qed

text \<open>
  Claim C1. A checked call copies the handle's error text if and only if the result code is
  not one of \<open>SQLITE_OK\<close>, \<open>SQLITE_ROW\<close>, \<open>SQLITE_DONE\<close>; the copy is the text the
  operation left on the handle; and the read and the copy stand between entering and leaving
  the handle's mutex, before the runtime lock is taken again (\<open>capture_protected\<close>).
\<close>

theorem error_text_capture:
  "new_events s (PYSQLITE_CALL_E db x s) =
     [Ev_gil_release, Ev_mutex_enter db, Ev_native_call]
     @ (if accepted (res (PYSQLITE_CALL_E db x s)) then []
        else [Ev_errmsg_read db, Ev_errmsg_copy (db_errmsg (PYSQLITE_CALL_E db x s) db)])
     @ [Ev_mutex_leave db, Ev_gil_acquire]
   \<and> events (PYSQLITE_CALL_E db x s) = events s @ new_events s (PYSQLITE_CALL_E db x s)
   \<and> res (PYSQLITE_CALL_E db x s) = fst (x (db_errmsg s))
   \<and> db_errmsg (PYSQLITE_CALL_E db x s) = snd (x (db_errmsg s))
   \<and> apsw_errmsg (PYSQLITE_CALL_E db x s) =
       (if accepted (res (PYSQLITE_CALL_E db x s)) then apsw_errmsg s
        else Some (db_errmsg (PYSQLITE_CALL_E db x s) db))
   \<and> ((\<exists>m. Ev_errmsg_copy m \<in> set (new_events s (PYSQLITE_CALL_E db x s)))
        = (\<not> accepted (res (PYSQLITE_CALL_E db x s))))
   \<and> capture_protected True [] (new_events s (PYSQLITE_CALL_E db x s))"
  by (simp add: new_events_E) (simp add: call_E)

text \<open>Claim C1 at a failing call (code \<open>SQLITE_ERROR\<close>) and at an accepted one (\<open>SQLITE_ROW\<close>).\<close>

theorem error_text_capture_witness:
  "new_events
     \<lparr>faults = [], err = None, refs = 0, in_calls = [], inuse = 0, gil_held = True, res = 0,
      db_errmsg = (\<lambda>_. ''not an error''), apsw_errmsg = None, events = []\<rparr>
     (PYSQLITE_CALL_E 1 (\<lambda>t. (SQLITE_ERROR, t(1 := ''no such table'')))
        \<lparr>faults = [], err = None, refs = 0, in_calls = [], inuse = 0, gil_held = True, res = 0,
         db_errmsg = (\<lambda>_. ''not an error''), apsw_errmsg = None, events = []\<rparr>)
   = [Ev_gil_release, Ev_mutex_enter 1, Ev_native_call, Ev_errmsg_read 1, Ev_errmsg_copy ''no such table'',
      Ev_mutex_leave 1, Ev_gil_acquire]
   \<and> apsw_errmsg
     (PYSQLITE_CALL_E 1 (\<lambda>t. (SQLITE_ERROR, t(1 := ''no such table'')))
        \<lparr>faults = [], err = None, refs = 0, in_calls = [], inuse = 0, gil_held = True, res = 0,
         db_errmsg = (\<lambda>_. ''not an error''), apsw_errmsg = None, events = []\<rparr>)
   = Some ''no such table''
   \<and> apsw_errmsg
     (PYSQLITE_CALL_E 1 (\<lambda>t. (SQLITE_ROW, t))
        \<lparr>faults = [], err = None, refs = 0, in_calls = [], inuse = 0, gil_held = True, res = 0,
         db_errmsg = (\<lambda>_. ''not an error''), apsw_errmsg = None, events = []\<rparr>)
   = None"
proof -
  let ?s = "\<lparr>faults = [], err = None, refs = 0, in_calls = [], inuse = 0, gil_held = True, res = 0,
      db_errmsg = (\<lambda>_. ''not an error''), apsw_errmsg = None, events = []\<rparr>"
  note bad = error_text_capture [of ?s 1 "\<lambda>t. (SQLITE_ERROR, t(1 := ''no such table''))"]
  note good = error_text_capture [of ?s 1 "\<lambda>t. (SQLITE_ROW, t)"]
  have r1: "res (PYSQLITE_CALL_E 1 (\<lambda>t. (SQLITE_ERROR, t(1 := ''no such table''))) ?s) = SQLITE_ERROR"
    using bad by simp
  have r2: "res (PYSQLITE_CALL_E 1 (\<lambda>t. (SQLITE_ROW, t)) ?s) = SQLITE_ROW"
    using good by simp
  have d1: "db_errmsg (PYSQLITE_CALL_E 1 (\<lambda>t. (SQLITE_ERROR, t(1 := ''no such table''))) ?s) 1 = ''no such table''"
    using bad by simp
  show ?thesis
    using bad good by (simp add: r1 r2 d1 accepted_def)
qed

text \<open>
  Claim C2, as the code has it. With the in-use flag set, \<open>CHECK_USE\<close> returns the error
  value at once and changes nothing but the error indicator: it raises the threading
  violation when no exception is pending and keeps the pending exception otherwise; the
  flag, the locks and the event list of the call in flight are as before. With the flag
  clear, \<open>CHECK_USE\<close> falls through, and \<open>INUSE_CALL\<close> runs the block on the state with the
  flag set and clears the flag afterwards (in a debug build the second assertion aborts if the
  block did not leave the flag set).
\<close>

theorem use_check:
  "(inuse s \<noteq> 0 \<longrightarrow>
      CHECK_USE e s = (Some e, s\<lparr>err := Some (case err s of None \<Rightarrow> ExcThreadingViolation | Some raised \<Rightarrow> raised)\<rparr>))
   \<and> (inuse s = 0 \<longrightarrow>
      CHECK_USE e s = (None, s)
      \<and> INUSE_CALL ndebug x s =
          (if ndebug \<or> inuse (x (s\<lparr>inuse := 1\<rparr>)) = 1 then Some ((x (s\<lparr>inuse := 1\<rparr>))\<lparr>inuse := 0\<rparr>) else None))"
  by (cases "err s")
     (auto simp: CHECK_USE_def PyErr_Occurred_def PyErr_Format_def INUSE_CALL_def c_assert_def Let_def)

text \<open>
  Claim C2 as stated fails when an exception is already pending on entry: the pending
  exception is kept and no threading violation is raised.
\<close>

theorem use_check_counterexample:
  "err (snd (CHECK_USE (- 1 :: int)
     \<lparr>faults = [], err = Some (PyExc_Other ''KeyboardInterrupt''), refs = 0, in_calls = [], inuse = 1,
      gil_held = True, res = 0, db_errmsg = (\<lambda>_. ''not an error''), apsw_errmsg = None, events = []\<rparr>))
   \<noteq> Some ExcThreadingViolation"
  by (simp add: CHECK_USE_def PyErr_Occurred_def)

text \<open>Claim C2 (amended) at an object in use, and at an idle object running a checked call.\<close>

theorem use_check_witness:
  "CHECK_USE (- 1 :: int)
     \<lparr>faults = [], err = None, refs = 0, in_calls = [], inuse = 1, gil_held = True, res = 0,
      db_errmsg = (\<lambda>_. ''not an error''), apsw_errmsg = None, events = []\<rparr>
   = (Some (- 1),
      \<lparr>faults = [], err = Some ExcThreadingViolation, refs = 0, in_calls = [], inuse = 1, gil_held = True,
       res = 0, db_errmsg = (\<lambda>_. ''not an error''), apsw_errmsg = None, events = []\<rparr>)
   \<and> inuse (the (INUSE_CALL False (PYSQLITE_CALL_E 1 (\<lambda>t. (SQLITE_ROW, t)))
        \<lparr>faults = [], err = None, refs = 0, in_calls = [], inuse = 0, gil_held = True, res = 0,
         db_errmsg = (\<lambda>_. ''not an error''), apsw_errmsg = None, events = []\<rparr>)) = 0"
proof -
  let ?busy = "\<lparr>faults = [], err = None, refs = 0, in_calls = [], inuse = 1, gil_held = True, res = 0,
      db_errmsg = (\<lambda>_. ''not an error''), apsw_errmsg = None, events = []\<rparr>"
  let ?idle = "\<lparr>faults = [], err = None, refs = 0, in_calls = [], inuse = 0, gil_held = True, res = 0,
      db_errmsg = (\<lambda>_. ''not an error''), apsw_errmsg = None, events = []\<rparr>"
  have a: "CHECK_USE (- 1 :: int) ?busy = (Some (- 1), ?busy\<lparr>err := Some ExcThreadingViolation\<rparr>)"
    using use_check [of ?busy "- 1 :: int", THEN conjunct1] by simp
  have b: "INUSE_CALL False (PYSQLITE_CALL_E 1 (\<lambda>t. (SQLITE_ROW, t))) ?idle =
           Some ((PYSQLITE_CALL_E 1 (\<lambda>t. (SQLITE_ROW, t)) (?idle\<lparr>inuse := 1\<rparr>))\<lparr>inuse := 0\<rparr>)"
    using use_check [of ?idle "- 1 :: int" False "PYSQLITE_CALL_E 1 (\<lambda>t. (SQLITE_ROW, t))", THEN conjunct2]
    by simp
  show ?thesis
    using a b by simp
qed

section \<open>Call-context tracker: proofs\<close>

lemma leave_all_append:
  "leave_all self (xs @ ys) s = leave_all self ys (leave_all self xs s)"
  by (induction xs arbitrary: s) auto

lemma CALL_ENTER_Some:
  assumes "CALL_ENTER ndebug self name s = Some (locals, s1)"
  shows "enter_call_save locals = in_call s self name"
    and "enter_call_here locals = length (c_stack s)"
    and "in_call s1 = (in_call s)(self := (in_call s self)(name := Some (length (c_stack s))))"
    and "c_stack s1 = c_stack s @ [MAGIC name]"
    and "tracking.more s1 = tracking.more s"
  using assms by (auto simp: CALL_ENTER_def c_assert_def Let_def split: if_splits)

lemma CALL_ENTER_valid:
  assumes "sentinels_valid self s"
  shows "\<exists>locals s1. CALL_ENTER ndebug self name s = Some (locals, s1) \<and> sentinels_valid self s1"
proof -
  have a: "(case in_call s self name of None \<Rightarrow> True | Some a \<Rightarrow> deref s a = Some (MAGIC name))"
    using assms by (simp add: sentinels_valid_def)
  then obtain locals s1 where e: "CALL_ENTER ndebug self name s = Some (locals, s1)"
    by (simp add: CALL_ENTER_def c_assert_def Let_def)
  have "sentinels_valid self s1"
    unfolding sentinels_valid_def
  proof
    fix n
    show "case in_call s1 self n of None \<Rightarrow> True | Some a \<Rightarrow> deref s1 a = Some (MAGIC n)"
      using assms [unfolded sentinels_valid_def, rule_format, of n] CALL_ENTER_Some(3,4) [OF e]
      by (auto simp: deref_def nth_append split: option.splits if_splits)
  qed
  with e show ?thesis by blast
qed

lemma enter_all_restores:
  "enter_all ndebug self names s = Some (ls, s') \<Longrightarrow> in_call (leave_all self ls s') = in_call s"
proof (induction names arbitrary: s ls s')
  case Nil
  then show ?case by simp
next
  case (Cons name names)
  from Cons.prems obtain locals s1 inner where
    e: "CALL_ENTER ndebug self name s = Some (locals, s1)"
    and r: "enter_all ndebug self names s1 = Some (inner, s')"
    and ls: "ls = inner @ [(name, locals)]"
    by (auto split: option.splits)
  have "in_call (leave_all self inner s') = in_call s1"
    by (rule Cons.IH [OF r])
  then show ?case
    using CALL_ENTER_Some(1,3) [OF e]
    by (simp add: ls leave_all_append CALL_LEAVE_def)
qed

lemma enter_all_valid:
  "sentinels_valid self s \<Longrightarrow> enter_all ndebug self names s \<noteq> None"
proof (induction names arbitrary: s)
  case Nil
  then show ?case by simp
next
  case (Cons name names)
  from CALL_ENTER_valid [OF Cons.prems, of ndebug name] obtain locals s1 where
    e: "CALL_ENTER ndebug self name s = Some (locals, s1)" and v: "sentinels_valid self s1"
    by blast
  from Cons.IH [OF v] show ?case
    by (auto simp: e)
qed

lemma enter_twice:
  assumes "in_call s self name = None"
  shows "(case CALL_ENTER ndebug self name s of
            None \<Rightarrow> False
          | Some (l1, s1) \<Rightarrow>
              (case CALL_ENTER ndebug self name s1 of
                 None \<Rightarrow> False
               | Some (l2, s2) \<Rightarrow>
                   CALL_CHECK self name s1 \<and> CALL_CHECK self name s2
                   \<and> CALL_CHECK self name (CALL_LEAVE self name l2 s2)
                   \<and> \<not> CALL_CHECK self name (CALL_LEAVE self name l1 (CALL_LEAVE self name l2 s2))))"
  using assms
  by (simp add: CALL_ENTER_def c_assert_def Let_def deref_def CALL_CHECK_def CALL_LEAVE_def)

text \<open>
  Claim C8. \<open>CALL_ENTER\<close> saves the slot's value in its local and installs the address of a
  new sentinel (an address that held nothing before, now holding the name's magic number);
  \<open>CALL_LEAVE\<close> puts the saved value back; \<open>CALL_CHECK\<close> is true exactly when the slot is
  not NULL; slots of other names and other objects are not touched. Entering any sequence of
  names and leaving them in reverse order restores every slot, and enter, enter, leave, leave
  on one name, starting inactive, is active in between and inactive at the end.
\<close>

theorem call_context_tracking:
  "(CALL_ENTER ndebug self name s = Some (locals, s1) \<longrightarrow>
        enter_call_save locals = in_call s self name
      \<and> in_call s1 self name = Some (enter_call_here locals)
      \<and> deref s (enter_call_here locals) = None
      \<and> deref s1 (enter_call_here locals) = Some (MAGIC name)
      \<and> (\<forall>obj n. (obj, n) \<noteq> (self, name) \<longrightarrow> in_call s1 obj n = in_call s obj n))
   \<and> in_call (CALL_LEAVE self name locals s2) self name = enter_call_save locals
   \<and> (\<forall>obj n. (obj, n) \<noteq> (self, name) \<longrightarrow> in_call (CALL_LEAVE self name locals s2) obj n = in_call s2 obj n)
   \<and> CALL_CHECK self name s = (in_call s self name \<noteq> None)
   \<and> (enter_all ndebug self names s = Some (ls, s') \<longrightarrow> in_call (leave_all self ls s') = in_call s)
   \<and> (sentinels_valid self s \<longrightarrow> enter_all ndebug self names s \<noteq> None)
   \<and> (in_call s self name = None \<longrightarrow>
        (case CALL_ENTER ndebug self name s of
            None \<Rightarrow> False
          | Some (l1, t1) \<Rightarrow>
              (case CALL_ENTER ndebug self name t1 of
                 None \<Rightarrow> False
               | Some (l2, t2) \<Rightarrow>
                   CALL_CHECK self name t1 \<and> CALL_CHECK self name t2
                   \<and> CALL_CHECK self name (CALL_LEAVE self name l2 t2)
                   \<and> \<not> CALL_CHECK self name (CALL_LEAVE self name l1 (CALL_LEAVE self name l2 t2)))))"
proof (intro conjI impI allI)
  assume e: "CALL_ENTER ndebug self name s = Some (locals, s1)"
  note f = CALL_ENTER_Some [OF e]
  show "enter_call_save locals = in_call s self name"
    by (rule f(1))
  show "in_call s1 self name = Some (enter_call_here locals)"
    by (simp add: f)
  show "deref s (enter_call_here locals) = None"
    by (simp add: f deref_def)
  show "deref s1 (enter_call_here locals) = Some (MAGIC name)"
    by (simp add: f deref_def)
  show "in_call s1 obj n = in_call s obj n" if "(obj, n) \<noteq> (self, name)" for obj n
    using that by (auto simp: f)
next
  show "in_call (CALL_LEAVE self name locals s2) self name = enter_call_save locals"
    by (simp add: CALL_LEAVE_def)
  show "in_call (CALL_LEAVE self name locals s2) obj n = in_call s2 obj n" if "(obj, n) \<noteq> (self, name)" for obj n
    using that by (auto simp: CALL_LEAVE_def)
  show "CALL_CHECK self name s = (in_call s self name \<noteq> None)"
    by (simp add: CALL_CHECK_def)
  show "in_call (leave_all self ls s') = in_call s" if "enter_all ndebug self names s = Some (ls, s')"
    using that by (rule enter_all_restores)
  show "enter_all ndebug self names s \<noteq> None" if "sentinels_valid self s"
    using that by (rule enter_all_valid)
  show "(case CALL_ENTER ndebug self name s of
            None \<Rightarrow> False
          | Some (l1, t1) \<Rightarrow>
              (case CALL_ENTER ndebug self name t1 of
                 None \<Rightarrow> False
               | Some (l2, t2) \<Rightarrow>
                   CALL_CHECK self name t1 \<and> CALL_CHECK self name t2
                   \<and> CALL_CHECK self name (CALL_LEAVE self name l2 t2)
                   \<and> \<not> CALL_CHECK self name (CALL_LEAVE self name l1 (CALL_LEAVE self name l2 t2))))"
    if "in_call s self name = None"
    using that by (rule enter_twice)
qed

text \<open>
  Claim C8 at enter, enter, leave, leave of \<open>xConnect\<close> on a fresh object, and at an
  \<open>xUpdate\<close> entered while \<open>xConnect\<close> is active.
\<close>

theorem call_context_tracking_witness:
  "in_call \<lparr>in_call = (\<lambda>_ _. None), c_stack = []\<rparr> 0 xConnect = None
   \<and> (case CALL_ENTER False 0 xConnect \<lparr>in_call = (\<lambda>_ _. None), c_stack = []\<rparr> of
         None \<Rightarrow> False
       | Some (l1, t1) \<Rightarrow>
           (case CALL_ENTER False 0 xConnect t1 of
              None \<Rightarrow> False
            | Some (l2, t2) \<Rightarrow>
                CALL_CHECK 0 xConnect t1 \<and> CALL_CHECK 0 xConnect t2
                \<and> CALL_CHECK 0 xConnect (CALL_LEAVE 0 xConnect l2 t2)
                \<and> \<not> CALL_CHECK 0 xConnect (CALL_LEAVE 0 xConnect l1 (CALL_LEAVE 0 xConnect l2 t2))))
   \<and> enter_all False 0 [xConnect, xConnect] \<lparr>in_call = (\<lambda>_ _. None), c_stack = []\<rparr> =
       Some ([(xConnect, \<lparr>enter_call_save = Some 0, enter_call_here = 1\<rparr>),
              (xConnect, \<lparr>enter_call_save = None, enter_call_here = 0\<rparr>)],
             \<lparr>in_call = (\<lambda>_ _. None)(0 := (\<lambda>_. None)(xConnect := Some 1)),
              c_stack = [0x008295ab, 0x008295ab]\<rparr>)
   \<and> in_call (leave_all 0
         [(xConnect, \<lparr>enter_call_save = Some 0, enter_call_here = 1\<rparr>),
          (xConnect, \<lparr>enter_call_save = None, enter_call_here = 0\<rparr>)]
         \<lparr>in_call = (\<lambda>_ _. None)(0 := (\<lambda>_. None)(xConnect := Some 1)),
          c_stack = [0x008295ab, 0x008295ab]\<rparr>) = (\<lambda>_ _. None)
   \<and> CALL_ENTER False 0 xUpdate \<lparr>in_call = (\<lambda>_ _. None)(0 := (\<lambda>_. None)(xConnect := Some 0)),
                                    c_stack = [0x008295ab]\<rparr>
       = Some (\<lparr>enter_call_save = None, enter_call_here = 1\<rparr>,
               \<lparr>in_call = (\<lambda>_ _. None)(0 := (\<lambda>_. None)(xConnect := Some 0, xUpdate := Some 1)),
                c_stack = [0x008295ab, 0x119306bc]\<rparr>)
   \<and> deref \<lparr>in_call = (\<lambda>_ _. None)(0 := (\<lambda>_. None)(xConnect := Some 0, xUpdate := Some 1)),
            c_stack = [0x008295ab, 0x119306bc]\<rparr> 1 = Some 0x119306bc
   \<and> in_call \<lparr>in_call = (\<lambda>_ _. None)(0 := (\<lambda>_. None)(xConnect := Some 0, xUpdate := Some 1)),
              c_stack = [0x008295ab, 0x119306bc]\<rparr> 0 xConnect = Some 0
   \<and> sentinels_valid 0 \<lparr>in_call = (\<lambda>_ _. None)(0 := (\<lambda>_. None)(xConnect := Some 0)),
                         c_stack = [0x008295ab]\<rparr>
   \<and> enter_all False 0 [xUpdate, xConnect]
        \<lparr>in_call = (\<lambda>_ _. None)(0 := (\<lambda>_. None)(xConnect := Some 0)), c_stack = [0x008295ab]\<rparr> \<noteq> None"
proof -
  let ?s = "\<lparr>in_call = (\<lambda>_ _. None), c_stack = []\<rparr>"
  let ?ls = "[(xConnect, \<lparr>enter_call_save = Some 0, enter_call_here = 1\<rparr>),
              (xConnect, \<lparr>enter_call_save = None, enter_call_here = 0\<rparr>)]"
  let ?s' = "\<lparr>in_call = (\<lambda>_ _. None)(0 := (\<lambda>_. None)(xConnect := Some 1)),
              c_stack = [0x008295ab, 0x008295ab]\<rparr>"
  let ?u = "\<lparr>in_call = (\<lambda>_ _. None)(0 := (\<lambda>_. None)(xConnect := Some 0)), c_stack = [0x008295ab]\<rparr>"
  let ?l = "\<lparr>enter_call_save = None, enter_call_here = 1\<rparr>"
  let ?u1 = "\<lparr>in_call = (\<lambda>_ _. None)(0 := (\<lambda>_. None)(xConnect := Some 0, xUpdate := Some 1)),
              c_stack = [0x008295ab, 0x119306bc]\<rparr>"
  have inactive: "in_call ?s 0 xConnect = None"
    by simp
  have run: "enter_all False 0 [xConnect, xConnect] ?s = Some (?ls, ?s')"
    by (simp add: CALL_ENTER_def c_assert_def Let_def deref_def fun_upd_twist)
  note t = call_context_tracking [where ndebug = False and self = 0 and name = xConnect and s = ?s
      and names = "[xConnect, xConnect]" and ls = ?ls and s' = ?s']
  note twice = t [THEN conjunct2, THEN conjunct2, THEN conjunct2, THEN conjunct2, THEN conjunct2,
      THEN conjunct2, THEN mp, OF inactive]
  note lifo = t [THEN conjunct2, THEN conjunct2, THEN conjunct2, THEN conjunct2, THEN conjunct1,
      THEN mp, OF run]
  have restored: "in_call (leave_all 0 ?ls ?s') = (\<lambda>_ _. None)"
    using lifo by simp
  have enter: "CALL_ENTER False 0 xUpdate ?u = Some (?l, ?u1)"
    by (simp add: CALL_ENTER_def c_assert_def Let_def deref_def)
  have valid: "sentinels_valid 0 ?u"
    by (simp add: sentinels_valid_def deref_def split: option.split)
  note t' = call_context_tracking [where ndebug = False and self = 0 and name = xUpdate and s = ?u
      and names = "[xUpdate, xConnect]"]
  note entered = t' [THEN conjunct1, THEN mp, OF enter]
  have magic: "deref ?u1 1 = Some 0x119306bc"
    using entered by simp
  have "(0, xConnect) \<noteq> (0, xUpdate)"
    by simp
  then have "in_call ?u1 0 xConnect = in_call ?u 0 xConnect"
    using entered by blast
  then have other: "in_call ?u1 0 xConnect = Some 0"
    by simp
  note total = t' [THEN conjunct2, THEN conjunct2, THEN conjunct2, THEN conjunct2, THEN conjunct2,
      THEN conjunct1, THEN mp, OF valid]
  from inactive twice run restored enter magic other valid total show ?thesis
    by blast
qed

section \<open>Unraisable exception dispatcher: proofs\<close>

declare apsw_write_unraisable.simps [simp del] call_hook.simps(2) [simp del]

lemma pythread_update_order [simp]: "s\<lparr>dlog := l, pending := p\<rparr> = s\<lparr>pending := p, dlog := l\<rparr>"
  by simp

lemma fold_traceback_state:
  "fold PyTraceBack_Here fs s =
     s\<lparr>pending := map_option (\<lambda>e. Exception (err_type e) (err_value e) (rev fs @ err_traceback e)) (pending s),
       dlog := dlog s @ map Ev_traceback_here fs\<rparr>"
proof (induction fs arbitrary: s)
  case Nil
  show ?case by (cases "pending s") simp_all
next
  case (Cons f fs)
  have step: "PyTraceBack_Here f s =
      s\<lparr>pending := map_option (\<lambda>e. Exception (err_type e) (err_value e) (f # err_traceback e)) (pending s),
        dlog := dlog s @ [Ev_traceback_here f]\<rparr>"
    by (simp add: PyTraceBack_Here_def dlog_add_def)
  have "fold PyTraceBack_Here (f # fs) s = fold PyTraceBack_Here fs (PyTraceBack_Here f s)"
    by simp
  also have "\<dots> = (PyTraceBack_Here f s)
      \<lparr>pending := map_option (\<lambda>e. Exception (err_type e) (err_value e) (rev fs @ err_traceback e))
                    (pending (PyTraceBack_Here f s)),
        dlog := dlog (PyTraceBack_Here f s) @ map Ev_traceback_here fs\<rparr>"
    by (rule Cons)
  also have "\<dots> = s\<lparr>pending := map_option (\<lambda>e. Exception (err_type e) (err_value e) (rev (f # fs) @ err_traceback e)) (pending s),
       dlog := dlog s @ map Ev_traceback_here (f # fs)\<rparr>"
    unfolding step by (cases "pending s") simp_all
  finally show ?case .
qed

lemma tell_sqlite3_log_state:
  "tell_sqlite3_log exc (s\<lparr>pending := None, dlog := l\<rparr>) = s\<lparr>pending := None, dlog := l @ native_log exc\<rparr>"
  by (simp add: tell_sqlite3_log_def native_log_def sqlite3_log_def dlog_add_def PyErr_Clear_def
      split: option.splits)

lemma hook_step_state [simp]:
  "hook_step d sys (s\<lparr>pending := p\<rparr>) = hook_step d sys s"
  "hook_step d sys (s\<lparr>dlog := l\<rparr>) = hook_step d sys s"
  by (simp_all add: hook_step_def fun_eq_iff)

lemma call_hook_state:
  assumes K: "\<And>h (t :: 'a pythread_scheme). \<exists>p l. snd (hook_body d sys h t) = t\<lparr>pending := p, dlog := l\<rparr>"
  shows "call_hook d sys kind (Some h) args (s\<lparr>pending := None, dlog := l\<rparr>) =
           (hook_succeeded (hook_step d sys s args (kind, h)),
            (s :: 'a pythread_scheme)\<lparr>pending := pending (snd (hook_body d sys h (s\<lparr>pending := None, dlog := []\<rparr>))),
              dlog := l @ [hook_step d sys s args (kind, h)]\<rparr>)"
proof -
  obtain ok r where hb: "hook_body d sys h (s\<lparr>pending := None, dlog := []\<rparr>) = (ok, r)"
    by (cases "hook_body d sys h (s\<lparr>pending := None, dlog := []\<rparr>)") auto
  from K [of h "s\<lparr>pending := None, dlog := []\<rparr>"] obtain p l' where r: "r = s\<lparr>pending := p, dlog := l'\<rparr>"
    by (auto simp: hb)
  show ?thesis
    by (simp add: call_hook.simps(2) hb hook_step_def r)
qed

lemma dispatch_steps_from:
  fixes s :: "'a pythread_scheme"
  assumes K: "\<And>h (t :: 'a pythread_scheme). depth < recursion_limit sys \<Longrightarrow>
                \<exists>p l. snd (hook_body (Suc depth) sys h t) = t\<lparr>pending := p, dlog := l\<rparr>"
  shows "apsw_write_unraisable depth sys hookobject (s\<lparr>pending := p, dlog := l\<rparr>) =
           s\<lparr>pending := None,
             dlog := l @ traceback_steps sys s
                     @ (if recursion_limit sys \<le> depth then [Ev_print (Some recursion_error)]
                        else protocol_steps depth sys hookobject (s\<lparr>pending := p\<rparr>))\<rparr>"
proof (cases "recursion_limit sys \<le> depth")
  case True
  then show ?thesis
    by (simp add: apsw_write_unraisable.simps [of depth sys hookobject] fold_traceback_state PyErr_Fetch_def
        Py_EnterRecursiveCall_def PyErr_Clear_def PyErr_Print_def dlog_add_def traceback_steps_def Let_def)
next
  case False
  then have lt: "depth < recursion_limit sys" by simp
  note ch = call_hook_state [OF K [OF lt]]
  note defs = apsw_write_unraisable.simps fold_traceback_state PyErr_Fetch_def
    Py_EnterRecursiveCall_def PyErr_Clear_def PyErr_Display_def dlog_add_def traceback_steps_def Let_def
    tell_sqlite3_log_state get_hookobject_excepthook_def get_sys_unraisablehook_def get_sys_excepthook_def
    PyStructSequence_New_def protocol_steps_def registered_def dispatched_def fetched_def ch
  have tail: ?thesis if ho: "hookobject = None \<or> hookobject = Some None \<or> hookobject = Some (Some h1)" for h1
  proof (cases "unraisablehook sys")
    case None
    show ?thesis
    proof (cases "excepthook sys")
      case n3: None
      from lt ho show ?thesis
        by (elim disjE) (simp_all add: defs None n3)
    next
      case (Some h3)
      from lt ho show ?thesis
        by (elim disjE) (simp_all add: defs None Some)
    qed
  next
    case (Some h2)
    show ?thesis
    proof (cases "excepthook sys")
      case n3: None
      from lt ho show ?thesis
        by (elim disjE) (simp_all add: defs Some n3)
    next
      case s3: (Some h3)
      from lt ho show ?thesis
        by (elim disjE) (simp_all add: defs Some s3)
    qed
  qed
  show ?thesis
  proof (cases hookobject)
    case None
    show ?thesis by (rule tail) (simp add: None)
  next
    case (Some a)
    show ?thesis
    proof (cases a)
      case None
      show ?thesis by (rule tail) (simp add: Some None)
    next
      case h: (Some h1)
      show ?thesis by (rule tail [of h1]) (simp add: Some h)
    qed
  qed
qed

lemma hook_body_frame:
  assumes D: "\<And>hookobject (t :: 'a pythread_scheme). \<exists>p l. apsw_write_unraisable d sys hookobject t = t\<lparr>pending := p, dlog := l\<rparr>"
  shows "\<exists>p l. snd (hook_body d sys h (s :: 'a pythread_scheme)) = s\<lparr>pending := p, dlog := l\<rparr>"
proof (induction h arbitrary: s)
  case Hook_returns
  have "s = s\<lparr>pending := pending s, dlog := dlog s\<rparr>" by simp
  then show ?case by (metis hook_body.simps(1) snd_conv)
next
  case (Hook_raises e)
  have "s\<lparr>pending := Some e\<rparr> = s\<lparr>pending := Some e, dlog := dlog s\<rparr>" by simp
  then show ?case by (metis hook_body.simps(2) snd_conv)
next
  case (Hook_unraisable e hookobject rest)
  from D [of hookobject "s\<lparr>pending := Some e\<rparr>"] obtain p l
    where a: "apsw_write_unraisable d sys hookobject (s\<lparr>pending := Some e\<rparr>) = s\<lparr>pending := p, dlog := l\<rparr>"
    by auto
  have "\<exists>p' l'. snd (hook_body d sys rest (s\<lparr>pending := p, dlog := l\<rparr>)) =
            (s\<lparr>pending := p, dlog := l\<rparr>)\<lparr>pending := p', dlog := l'\<rparr>"
    by (rule Hook_unraisable.IH)
  then show ?case
    by (auto simp: a)
qed

lemma dispatch_frame:
  "\<exists>p l. apsw_write_unraisable depth sys hookobject (s :: 'a pythread_scheme) = s\<lparr>pending := p, dlog := l\<rparr>"
proof (induction "recursion_limit sys - depth" arbitrary: depth s hookobject)
  case 0
  then have "\<not> depth < recursion_limit sys" by simp
  then have "apsw_write_unraisable depth sys hookobject (s\<lparr>pending := pending s, dlog := dlog s\<rparr>) =
           s\<lparr>pending := None,
             dlog := dlog s @ traceback_steps sys s
                     @ (if recursion_limit sys \<le> depth then [Ev_print (Some recursion_error)]
                        else protocol_steps depth sys hookobject (s\<lparr>pending := pending s\<rparr>))\<rparr>"
    by (intro dispatch_steps_from) simp
  then show ?case
    by (metis surjective update_convs(1) update_convs(3))
next
  case (Suc n)
  then have n: "n = recursion_limit sys - Suc depth" by simp
  have "apsw_write_unraisable depth sys hookobject (s\<lparr>pending := pending s, dlog := dlog s\<rparr>) =
           s\<lparr>pending := None,
             dlog := dlog s @ traceback_steps sys s
                     @ (if recursion_limit sys \<le> depth then [Ev_print (Some recursion_error)]
                        else protocol_steps depth sys hookobject (s\<lparr>pending := pending s\<rparr>))\<rparr>"
  proof (rule dispatch_steps_from)
    fix h and t :: "'a pythread_scheme"
    show "\<exists>p l. snd (hook_body (Suc depth) sys h t) = t\<lparr>pending := p, dlog := l\<rparr>"
      by (rule hook_body_frame) (rule Suc.hyps(1) [OF n])
  qed
  then show ?case
    by simp blast
qed

lemma dispatch_steps:
  "apsw_write_unraisable depth sys hookobject s =
     s\<lparr>pending := None,
       dlog := dlog s @ traceback_steps sys s
               @ (if recursion_limit sys \<le> depth then [Ev_print (Some recursion_error)]
                  else protocol_steps depth sys hookobject s)\<rparr>"
proof -
  have "apsw_write_unraisable depth sys hookobject (s\<lparr>pending := pending s, dlog := dlog s\<rparr>) =
           s\<lparr>pending := None,
             dlog := dlog s @ traceback_steps sys s
                     @ (if recursion_limit sys \<le> depth then [Ev_print (Some recursion_error)]
                        else protocol_steps depth sys hookobject (s\<lparr>pending := pending s\<rparr>))\<rparr>"
    by (rule dispatch_steps_from) (rule hook_body_frame, rule dispatch_frame)
  then show ?thesis
    by simp
qed


lemma new_dlog_steps:
  "new_dlog s (apsw_write_unraisable depth sys hookobject s) =
     traceback_steps sys s
     @ (if recursion_limit sys \<le> depth then [Ev_print (Some recursion_error)]
        else protocol_steps depth sys hookobject s)"
  by (simp add: dispatch_steps [of depth sys hookobject s] new_dlog_def)

lemma first_success_set: "set (first_success es d) \<subseteq> set es \<union> {d}"
  by (induction es) auto





lemma step_rank_hook_step [simp]: "step_rank (hook_step d sys s exc kh) = kind_rank (fst kh)"
  by (cases "fst kh") (simp_all add: hook_step_def split: prod.splits)

lemma entered_clear_hook_step [simp]: "entered_clear (hook_step d sys s exc kh)"
  by (simp add: hook_step_def split: prod.splits)

lemma carries_hook_step [simp]: "carries exc (hook_step d sys s exc kh)"
  by (simp add: hook_step_def split: prod.splits)


lemma kind_rank_bounds [simp]: "0 < kind_rank k" "Suc 0 < kind_rank k" "kind_rank k < 5"
  by (cases k; simp)+

lemma native_log_events:
  "e \<in> set (native_log exc) \<Longrightarrow> step_rank e = 1 \<and> \<not> hook_succeeded e \<and> entered_clear e \<and> carries x e \<and> nesting e = 0"
  by (auto simp: native_log_def split: option.splits)


lemma traceback_steps_events:
  "e \<in> set (traceback_steps sys s) \<Longrightarrow> step_rank e = 0 \<and> \<not> hook_succeeded e \<and> entered_clear e \<and> carries x e \<and> nesting e = 0"
  by (auto simp: traceback_steps_def split: if_splits)













lemma max_list_le: "(\<forall>x \<in> set xs. x \<le> k) \<Longrightarrow> max_list xs \<le> k"
  by (induction xs) auto

lemma bounded_log_trans: "bounded_log k s s' \<Longrightarrow> bounded_log k s' s'' \<Longrightarrow> bounded_log k s s''"
  by (auto simp: bounded_log_def)

lemma hook_body_bounded:
  assumes D: "\<And>hookobject (t :: 'a pythread_scheme). bounded_log k t (apsw_write_unraisable d sys hookobject t)"
  shows "bounded_log k (s :: 'a pythread_scheme) (snd (hook_body d sys h s))"
proof (induction h arbitrary: s)
  case Hook_returns
  show ?case by (simp add: bounded_log_def)
next
  case (Hook_raises e)
  show ?case by (simp add: bounded_log_def)
next
  case (Hook_unraisable e hookobject rest)
  let ?s1 = "apsw_write_unraisable d sys hookobject (s\<lparr>pending := Some e\<rparr>)"
  have "bounded_log k (s\<lparr>pending := Some e\<rparr>) ?s1"
    by (rule D)
  then have "bounded_log k s ?s1"
    by (simp add: bounded_log_def)
  moreover have "bounded_log k ?s1 (snd (hook_body d sys rest ?s1))"
    by (rule Hook_unraisable.IH)
  ultimately show ?case
    by (simp add: bounded_log_trans)
qed

lemma dispatch_bounded_step:
  assumes H: "\<And>h (t :: 'a pythread_scheme). depth < recursion_limit sys \<Longrightarrow>
                bounded_log (recursion_limit sys - Suc depth) t (snd (hook_body (Suc depth) sys h t))"
  shows "bounded_log (recursion_limit sys - depth) (s :: 'a pythread_scheme)
           (apsw_write_unraisable depth sys hookobject s)"
proof -
  have hook: "nesting (hook_step (Suc depth) sys s exc kh) \<le> recursion_limit sys - depth"
    if lt: "depth < recursion_limit sys" for exc kh
  proof -
    let ?hb = "hook_body (Suc depth) sys (snd kh) (s\<lparr>pending := None, dlog := []\<rparr>)"
    from H [OF lt, of "s\<lparr>pending := None, dlog := []\<rparr>" "snd kh"]
    have "\<forall>e \<in> set (dlog (snd ?hb)). nesting e \<le> recursion_limit sys - Suc depth"
      by (auto simp: bounded_log_def)
    then have "max_list (map nesting (dlog (snd ?hb))) \<le> recursion_limit sys - Suc depth"
      by (intro max_list_le) auto
    with lt show ?thesis
      by (auto simp: hook_step_def split: prod.splits)
  qed
  have "nesting e \<le> recursion_limit sys - depth"
    if "e \<in> set (new_dlog s (apsw_write_unraisable depth sys hookobject s))" for e
  proof (cases "recursion_limit sys \<le> depth")
    case True
    with that traceback_steps_events [of e sys s None] show ?thesis
      by (auto simp: new_dlog_steps)
  next
    case False
    with that consider "e \<in> set (traceback_steps sys s)" | "e \<in> set (native_log (dispatched sys s))"
      | "e \<in> set (first_success (map (hook_step (Suc depth) sys s (dispatched sys s)) (registered sys hookobject))
                     (Ev_display (dispatched sys s) None))"
      by (auto simp: new_dlog_steps protocol_steps_def)
    then show ?thesis
    proof cases
      case 1
      with traceback_steps_events [of e sys s None] show ?thesis by simp
    next
      case 2
      with native_log_events [of e "dispatched sys s" None] show ?thesis by simp
    next
      case 3
      with first_success_set have "e \<in> hook_step (Suc depth) sys s (dispatched sys s) ` set (registered sys hookobject)
          \<or> e = Ev_display (dispatched sys s) None"
        by fastforce
      with hook False show ?thesis
        by auto
    qed
  qed
  moreover have "dlog (apsw_write_unraisable depth sys hookobject s) =
      dlog s @ new_dlog s (apsw_write_unraisable depth sys hookobject s)"
    by (simp add: new_dlog_steps) (simp add: dispatch_steps [of depth sys hookobject s])
  ultimately show ?thesis
    by (auto simp: bounded_log_def)
qed

lemma dispatch_bounded:
  "bounded_log (recursion_limit sys - depth) (s :: 'a pythread_scheme)
     (apsw_write_unraisable depth sys hookobject s)"
proof (induction "recursion_limit sys - depth" arbitrary: depth s hookobject)
  case 0
  then have "\<not> depth < recursion_limit sys" by simp
  then show ?case
    by (intro dispatch_bounded_step) simp
next
  case (Suc n)
  then have n: "n = recursion_limit sys - Suc depth" by simp
  show ?case
  proof (rule dispatch_bounded_step)
    fix h and t :: "'a pythread_scheme"
    show "bounded_log (recursion_limit sys - Suc depth) t (snd (hook_body (Suc depth) sys h t))"
      by (rule hook_body_bounded) (rule Suc.hyps(1) [OF n])
  qed
qed

lemma traceback_steps_state [simp]:
  "traceback_steps sys (s\<lparr>pending := p\<rparr>) = traceback_steps sys s"
  "traceback_steps sys (s\<lparr>dlog := l\<rparr>) = traceback_steps sys s"
  by (simp_all add: traceback_steps_def)

lemma dispatched_state [simp]: "dispatched sys (s\<lparr>dlog := l\<rparr>) = dispatched sys s"
  by (simp add: dispatched_def fetched_def fold_traceback_state)

lemma protocol_steps_state [simp]:
  "protocol_steps depth sys hookobject (s\<lparr>dlog := l\<rparr>) = protocol_steps depth sys hookobject s"
  by (simp add: protocol_steps_def)

lemma reentrant_hook_step:
  "hook_step d sys s exc (kind, Hook_unraisable e hookobject Hook_returns) =
     Ev_hook kind exc None
       (traceback_steps sys s
        @ (if recursion_limit sys \<le> d then [Ev_print (Some recursion_error)]
           else protocol_steps d sys hookobject (s\<lparr>pending := Some e\<rparr>)))
       True"
  by (simp add: hook_step_def dispatch_steps [of d sys hookobject])

text \<open>
  Claim C7, as the code has it. The guard is the host's recursion limit: when
  \<open>Py_EnterRecursiveCall\<close> fails, the invocation completes the traceback, makes the single
  \<open>PyErr_Print\<close> display and returns with no exception pending; no hook is called and nothing
  is sent to the native log. Hence hook calls made by dispatcher invocations nest at most
  \<open>recursion_limit - depth\<close> deep, whatever the hooks do. Below the limit an invocation runs
  the full protocol, re-entrant or not: it appends the traceback steps and then
  \<open>protocol_steps\<close>. In particular, when an exception \<open>e\<close> that cannot be raised arises in a
  hook that an invocation at \<open>depth\<close> has called, the invocation made for \<open>e\<close> while the outer
  one is running takes the steps of the full protocol, and the hook's step records them.
\<close>

theorem recursion_guard:
  "(recursion_limit sys \<le> depth \<longrightarrow>
       new_dlog s (apsw_write_unraisable depth sys hookobject s) =
         traceback_steps sys s @ [Ev_print (Some recursion_error)]
     \<and> pending (apsw_write_unraisable depth sys hookobject s) = None)
   \<and> dlog (apsw_write_unraisable depth sys hookobject s) =
        dlog s @ new_dlog s (apsw_write_unraisable depth sys hookobject s)
   \<and> list_all (\<lambda>e. nesting e \<le> recursion_limit sys - depth)
        (new_dlog s (apsw_write_unraisable depth sys hookobject s))
   \<and> (depth < recursion_limit sys \<longrightarrow>
        new_dlog s (apsw_write_unraisable depth sys hookobject s) =
          traceback_steps sys s @ protocol_steps depth sys hookobject s)
   \<and> (Suc depth < recursion_limit sys \<longrightarrow>
        hook_step (Suc depth) sys s exc (kind, Hook_unraisable e inner Hook_returns) =
          Ev_hook kind exc None
            (traceback_steps sys s @ protocol_steps (Suc depth) sys inner (s\<lparr>pending := Some e\<rparr>))
            True)"
proof (intro conjI impI)
  assume g: "recursion_limit sys \<le> depth"
  show "new_dlog s (apsw_write_unraisable depth sys hookobject s) =
         traceback_steps sys s @ [Ev_print (Some recursion_error)]"
    using g by (simp add: new_dlog_steps)
  show "pending (apsw_write_unraisable depth sys hookobject s) = None"
    by (simp add: dispatch_steps [of depth sys hookobject s])
next
  from dispatch_bounded [of sys depth s hookobject]
  show "dlog (apsw_write_unraisable depth sys hookobject s) =
        dlog s @ new_dlog s (apsw_write_unraisable depth sys hookobject s)"
    and "list_all (\<lambda>e. nesting e \<le> recursion_limit sys - depth)
        (new_dlog s (apsw_write_unraisable depth sys hookobject s))"
    by (auto simp: bounded_log_def new_dlog_def list_all_iff)
next
  assume "depth < recursion_limit sys"
  then show "new_dlog s (apsw_write_unraisable depth sys hookobject s) =
          traceback_steps sys s @ protocol_steps depth sys hookobject s"
    by (simp add: new_dlog_steps)
next
  assume "Suc depth < recursion_limit sys"
  then show "hook_step (Suc depth) sys s exc (kind, Hook_unraisable e inner Hook_returns) =
          Ev_hook kind exc None
            (traceback_steps sys s @ protocol_steps (Suc depth) sys inner (s\<lparr>pending := Some e\<rparr>))
            True"
    by (simp add: reentrant_hook_step)
qed


text \<open>
  Claim C7 as stated fails: a dispatcher invocation made while an outer invocation is running
  its call-site hook, below the recursion limit, sends to the native log and calls its own
  call-site hook.
\<close>

theorem recursion_guard_counterexample:
  "dlog (apsw_write_unraisable 0
       \<lparr>unraisablehook = None, excepthook = None, recursion_limit = 1000, PYPY_VERSION = False,
        struct_new_ok = True, normalize = instance_kept (Exc_Value ''Exception'' (Some (Some [])))\<rparr>
       (Some (Some (Hook_unraisable
          (Exception PyExc_ValueError (Some (Exc_Value ''ValueError'' (Some (Some ''inner'')))) [])
          (Some (Some Hook_returns)) Hook_returns)))
       \<lparr>pending = Some (Exception PyExc_ValueError (Some (Exc_Value ''ValueError'' (Some (Some ''outer'')))) []),
        py_frames = [], dlog = []\<rparr>)
   = [Ev_sqlite3_log SQLITE_ERROR ''ValueError'' (Some ''outer''),
      Ev_hook Hookobject_excepthook
        (Some (Exception PyExc_ValueError (Some (Exc_Value ''ValueError'' (Some (Some ''outer'')))) []))
        None
        [Ev_sqlite3_log SQLITE_ERROR ''ValueError'' (Some ''inner''),
         Ev_hook Hookobject_excepthook
           (Some (Exception PyExc_ValueError (Some (Exc_Value ''ValueError'' (Some (Some ''inner'')))) []))
           None [] True]
        True]
   \<and> \<not> list_all reentrant_only_displays
        (dlog (apsw_write_unraisable 0
       \<lparr>unraisablehook = None, excepthook = None, recursion_limit = 1000, PYPY_VERSION = False,
        struct_new_ok = True, normalize = instance_kept (Exc_Value ''Exception'' (Some (Some [])))\<rparr>
       (Some (Some (Hook_unraisable
          (Exception PyExc_ValueError (Some (Exc_Value ''ValueError'' (Some (Some ''inner'')))) [])
          (Some (Some Hook_returns)) Hook_returns)))
       \<lparr>pending = Some (Exception PyExc_ValueError (Some (Exc_Value ''ValueError'' (Some (Some ''outer'')))) []),
        py_frames = [], dlog = []\<rparr>))"
  by (simp add: apsw_write_unraisable.simps call_hook.simps(2) PyErr_Fetch_def PyErr_NormalizeException_def
      instance_kept_def Py_EnterRecursiveCall_def tell_sqlite3_log_def
      sqlite3_log_def dlog_add_def PyErr_Clear_def get_hookobject_excepthook_def
      get_sys_unraisablehook_def get_sys_excepthook_def)

text \<open>
  Claim C7 (amended) with a recursion limit of 2: an invocation entered at depth 2, one entered
  at depth 1, and a hook called at depth 1 in which an exception arises that cannot be raised.
\<close>

theorem recursion_guard_witness:
  "new_dlog
       \<lparr>pending = Some (Exception PyExc_ValueError None []), py_frames = [''callback''], dlog = []\<rparr>
       (apsw_write_unraisable 2
          \<lparr>unraisablehook = None, excepthook = Some Hook_returns, recursion_limit = 2,
           PYPY_VERSION = False, struct_new_ok = True,
           normalize = instance_kept (Exc_Value ''ValueError'' (Some (Some [])))\<rparr>
          (Some (Some Hook_returns))
          \<lparr>pending = Some (Exception PyExc_ValueError None []), py_frames = [''callback''], dlog = []\<rparr>)
     = [Ev_traceback_here ''callback'', Ev_print (Some recursion_error)]
   \<and> pending
       (apsw_write_unraisable 2
          \<lparr>unraisablehook = None, excepthook = Some Hook_returns, recursion_limit = 2,
           PYPY_VERSION = False, struct_new_ok = True,
           normalize = instance_kept (Exc_Value ''ValueError'' (Some (Some [])))\<rparr>
          (Some (Some Hook_returns))
          \<lparr>pending = Some (Exception PyExc_ValueError None []), py_frames = [''callback''], dlog = []\<rparr>)
     = None
   \<and> new_dlog
       \<lparr>pending = Some (Exception PyExc_ValueError None []), py_frames = [''callback''], dlog = []\<rparr>
       (apsw_write_unraisable 1
          \<lparr>unraisablehook = None, excepthook = Some Hook_returns, recursion_limit = 2,
           PYPY_VERSION = False, struct_new_ok = True,
           normalize = instance_kept (Exc_Value ''ValueError'' (Some (Some [])))\<rparr>
          (Some (Some Hook_returns))
          \<lparr>pending = Some (Exception PyExc_ValueError None []), py_frames = [''callback''], dlog = []\<rparr>)
     = [Ev_traceback_here ''callback'',
        Ev_sqlite3_log SQLITE_ERROR ''ValueError'' (Some []),
        Ev_hook Hookobject_excepthook
          (Some (Exception PyExc_ValueError (Some (Exc_Value ''ValueError'' (Some (Some [])))) [''callback'']))
          None [] True]
   \<and> hook_step 1
        \<lparr>unraisablehook = None, excepthook = Some Hook_returns, recursion_limit = 2,
         PYPY_VERSION = False, struct_new_ok = True,
         normalize = instance_kept (Exc_Value ''ValueError'' (Some (Some [])))\<rparr>
        \<lparr>pending = Some (Exception PyExc_ValueError None []), py_frames = [''callback''], dlog = []\<rparr>
        None
        (Sys_excepthook, Hook_unraisable (Exception (PyExc_Other ''KeyError'') None []) None Hook_returns)
     = Ev_hook Sys_excepthook None None
         [Ev_traceback_here ''callback'',
          Ev_sqlite3_log SQLITE_ERROR ''ValueError'' (Some []),
          Ev_hook Sys_excepthook
            (Some (Exception (PyExc_Other ''KeyError'') (Some (Exc_Value ''ValueError'' (Some (Some []))))
               [''callback'']))
            None [] True]
         True"
proof -
  let ?sys = "\<lparr>unraisablehook = None, excepthook = Some Hook_returns, recursion_limit = 2,
                    PYPY_VERSION = False, struct_new_ok = True,
                    normalize = instance_kept (Exc_Value ''ValueError'' (Some (Some [])))\<rparr>"
  let ?s = "\<lparr>pending = Some (Exception PyExc_ValueError None []), py_frames = [''callback''], dlog = []\<rparr>"
  let ?e = "Exception (PyExc_Other ''KeyError'') None []"
  have g: "recursion_limit ?sys \<le> 2" and b: "1 < recursion_limit ?sys" and r: "Suc 0 < recursion_limit ?sys"
    by simp_all
  note defs = traceback_steps_def protocol_steps_def native_log_def dispatched_def fetched_def
    PyTraceBack_Here_def dlog_add_def PyErr_NormalizeException_def instance_kept_def registered_def
    hook_step_def
  from recursion_guard [of ?sys 2 ?s "Some (Some Hook_returns)", THEN conjunct1, THEN mp, OF g]
  have at_limit: "new_dlog ?s (apsw_write_unraisable 2 ?sys (Some (Some Hook_returns)) ?s)
        = [Ev_traceback_here ''callback'', Ev_print (Some recursion_error)]
      \<and> pending (apsw_write_unraisable 2 ?sys (Some (Some Hook_returns)) ?s) = None"
    by (simp add: traceback_steps_def)
  from recursion_guard [of ?sys 1 ?s "Some (Some Hook_returns)", THEN conjunct2, THEN conjunct2,
      THEN conjunct2, THEN conjunct1, THEN mp, OF b]
  have below: "new_dlog ?s (apsw_write_unraisable 1 ?sys (Some (Some Hook_returns)) ?s)
     = [Ev_traceback_here ''callback'',
        Ev_sqlite3_log SQLITE_ERROR ''ValueError'' (Some []),
        Ev_hook Hookobject_excepthook
          (Some (Exception PyExc_ValueError (Some (Exc_Value ''ValueError'' (Some (Some [])))) [''callback'']))
          None [] True]"
    by (simp add: defs)
  from recursion_guard [of ?sys 0 ?s _ None Sys_excepthook ?e None, THEN conjunct2, THEN conjunct2,
      THEN conjunct2, THEN conjunct2, THEN mp, OF r]
  have reentrant: "hook_step 1 ?sys ?s None (Sys_excepthook, Hook_unraisable ?e None Hook_returns)
     = Ev_hook Sys_excepthook None None
         [Ev_traceback_here ''callback'',
          Ev_sqlite3_log SQLITE_ERROR ''ValueError'' (Some []),
          Ev_hook Sys_excepthook
            (Some (Exception (PyExc_Other ''KeyError'') (Some (Exc_Value ''ValueError'' (Some (Some []))))
               [''callback'']))
            None [] True]
         True"
    by (simp add: defs)
  from at_limit below reentrant show ?thesis
    by simp
qed


end
